theory Spec2Isabelle
  imports Main "HOL-Library.AList" "HOL-Library.Log_Nat"
begin

section \<open>Data model of the training job orchestrator\<close>

text \<open>
  The embedding follows \<^verbatim>\<open>src/api/model_trainer_api-v1.py\<close> (class
  \<^verbatim>\<open>ModelTrainerAPI\<close>) and \<^verbatim>\<open>src/training/trainer_test.py\<close> (class
  \<^verbatim>\<open>TrainingManager\<close>).

  The \<^verbatim>\<open>status\<close> field is a Python string that only ever receives six literals:
  \<^verbatim>\<open>'pending'\<close>, \<^verbatim>\<open>'training'\<close>, \<^verbatim>\<open>'completed'\<close>, \<^verbatim>\<open>'failed'\<close>,
  \<^verbatim>\<open>'cancelled'\<close> (the five listed in the comment of the dataclass) and
  \<^verbatim>\<open>'initializing'\<close> (assigned only by \<^verbatim>\<open>TrainingManager\<close>).
\<close>

datatype status = Pending | Initializing | Training | Completed | Failed | Cancelled

text \<open>
  Python floats are carried as rationals (every finite double is one); the arithmetic that
  the workers perform on them is rounded explicitly by \<open>fl\<close> below.
\<close>

type_synonym pyfloat = rat

text \<open>The values stored in \<^verbatim>\<open>ModelInfo.dataset_info\<close> (\<^verbatim>\<open>Dict[str, Any]\<close>).\<close>

datatype pyval = PStr string | PInt int

text \<open>
  \<^verbatim>\<open>@dataclass class TrainingJob\<close>. The field \<^verbatim>\<open>id\<close> is written \<open>id_job\<close>
  (\<open>id\<close> is the identity function of HOL). \<^verbatim>\<open>__post_init__\<close> replaces a
  \<^verbatim>\<open>None\<close> in \<^verbatim>\<open>logs\<close> and \<^verbatim>\<open>metrics\<close> by an empty list and an empty dict, so
  both fields are plain containers here.
\<close>

record TrainingJob =
  id_job :: string
  model_name :: string
  base_model :: string
  dataset_path :: string
  status :: status
  progress :: int
  learning_rate :: pyfloat
  batch_size :: int
  epochs :: int
  max_length :: int
  start_time :: string
  end_time :: "string option"
  logs :: "string list"
  error_message :: "string option"
  model_path :: "string option"
  metrics :: "(string \<times> pyfloat) list"

text \<open>
  \<^verbatim>\<open>@dataclass class ModelInfo\<close>. The fields \<^verbatim>\<open>base_model\<close> and \<^verbatim>\<open>model_path\<close>
  carry the suffix \<open>_m\<close>, since a record field is a constant of the theory and the
  job record already owns these two names.
\<close>

record ModelInfo =
  name :: string
  base_model_m :: string
  model_path_m :: string
  training_job_id :: string
  created_at :: string
  dataset_info :: "(string \<times> pyval) list"
  performance_metrics :: "(string \<times> pyfloat) list"
  model_size :: int
  description :: "string option"

text \<open>The fields of the configuration object that the two classes read.\<close>

record config =
  logs_directory :: string
  models_directory :: string
  max_file_size :: int
  supported_formats :: "string list"
  max_concurrent_jobs :: int

text \<open>
  A Python \<^verbatim>\<open>dict\<close> keeps insertion order and unique keys: it is an association list
  in which \<^verbatim>\<open>d[k] = v\<close> is \<^const>\<open>AList.update\<close> (replace in place, or append),
  \<^verbatim>\<open>d.get(k)\<close> is \<^const>\<open>map_of\<close>, \<^verbatim>\<open>d.values()\<close> is \<open>map snd\<close> and a mutation
  of the object stored under \<open>k\<close> is \<^const>\<open>AList.map_entry\<close>.

  The state of a \<^verbatim>\<open>ModelTrainerAPI\<close> instance and of the files it owns:
  \<open>jobs_file\<close> and \<open>models_file\<close> are the parsed contents of
  \<^verbatim>\<open>training_jobs.json\<close> and \<^verbatim>\<open>trained_models.json\<close> (\<open>None\<close>: the file does
  not exist), \<open>model_files\<close> the model artifacts written by the worker.
\<close>

record state =
  training_jobs :: "(string \<times> TrainingJob) list"
  trained_models :: "(string \<times> ModelInfo) list"
  active_jobs :: int
  jobs_file :: "TrainingJob list option"
  models_file :: "ModelInfo list option"
  model_files :: "(string \<times> string) list"

text \<open>
  What an operation reads from the outside world while it runs: the clock in the three
  renderings the code asks for, the dataset file at a path (\<open>None\<close>: no such file), and
  whether the writes and the file removal it attempts succeed (\<open>model_write_error\<close> and
  \<open>remove_error\<close> hold the message of the exception raised).
\<close>

record dataset_file =
  stat_error :: "string option"
  file_size :: int
  file_ext :: string
  num_samples :: int

record env =
  unix_time :: nat
  now_iso :: string
  now_fmt :: string
  lookup_file :: "string \<Rightarrow> dataset_file option"
  jobs_write_ok :: bool
  models_write_ok :: bool
  model_write_error :: "string option"
  remove_error :: "string option"
  fmt_4f :: "pyfloat \<Rightarrow> string"

text \<open>
  The operations return \<^verbatim>\<open>(False, message)\<close> on rejection; each message template of
  the source is one constructor, holding the values interpolated into it.
\<close>

datatype validation_error =
    FileDoesNotExist
  | FileTooLarge int
  | UnsupportedFormat "string list"
  | ValidationError string

datatype error =
    ModelNameRequired
  | ModelExists string
  | MaxJobsReached int
  | DatasetValidationFailed validation_error
  | JobNotFound string
  | CannotCancel status
  | ModelNotFound string
  | ErrorDeletingModel string

definition terminal :: "status \<Rightarrow> bool" where
  "terminal st \<longleftrightarrow> st = Completed \<or> st = Failed \<or> st = Cancelled"

section \<open>Persistence\<close>

text \<open>
  \<^verbatim>\<open>_save_state\<close>: both catalogs are rewritten wholesale inside one \<^verbatim>\<open>try\<close>; an
  exception is logged and swallowed, and one raised while the jobs catalog is written
  skips the models catalog. A failed write is modelled as leaving the file as it was.
\<close>

definition save_state :: "env \<Rightarrow> state \<Rightarrow> state" where
  "save_state e s =
     (if jobs_write_ok e then
        (let s1 = s\<lparr>jobs_file := Some (map snd (training_jobs s))\<rparr>
         in if models_write_ok e
            then s1\<lparr>models_file := Some (map snd (trained_models s))\<rparr>
            else s1)
      else s)"

section \<open>Python library functions used by the orchestrator\<close>

text \<open>
  \<^verbatim>\<open>str.strip()\<close> removes leading and trailing whitespace; the code points below 256
  that Python counts as whitespace are 9 to 13, 28 to 32, 133 and 160.
\<close>

definition isspace :: "char \<Rightarrow> bool" where
  "isspace c \<longleftrightarrow> (of_char c :: nat) \<in> set [9, 10, 11, 12, 13, 28, 29, 30, 31, 32, 133, 160]"

definition strip :: "string \<Rightarrow> string" where
  "strip x = rev (dropWhile isspace (rev (dropWhile isspace x)))"

text \<open>\<^verbatim>\<open>str(n)\<close> for an integer: its decimal digits.\<close>

definition digit :: "nat \<Rightarrow> char" where
  "digit d = char_of (48 + d)"

function str_nat :: "nat \<Rightarrow> string" where
  "str_nat n = (if n < 10 then [digit n] else str_nat (n div 10) @ [digit (n mod 10)])"
  by pat_completeness auto
termination
  by (relation "measure (\<lambda>n. n)") auto

declare str_nat.simps [simp del]

definition str_int :: "int \<Rightarrow> string" where
  "str_int i = (if i < 0 then CHR ''-'' # str_nat (nat (- i)) else str_nat (nat i))"

text \<open>\<^verbatim>\<open>os.path.basename\<close> and \<^verbatim>\<open>os.path.join\<close> of two components, on POSIX paths.\<close>

definition basename :: "string \<Rightarrow> string" where
  "basename p = rev (takeWhile (\<lambda>c. c \<noteq> CHR ''/'') (rev p))"

definition path_join :: "string \<Rightarrow> string \<Rightarrow> string" where
  "path_join a b =
     (if b \<noteq> [] \<and> hd b = CHR ''/'' then b
      else if a = [] \<or> last a = CHR ''/'' then a @ b
      else a @ ''/'' @ b)"

subsection \<open>Float arithmetic\<close>

text \<open>
  A Python float is an IEEE 754 double: every arithmetic result is the exact result rounded
  to the nearest number with a 53-bit significand, ties to the even significand.
  \<open>binade x\<close> is the exponent \<open>e\<close> with \<open>2^e \<le> x < 2^(e+1)\<close> for a positive
  \<open>x\<close>. Overflow and subnormal numbers are outside the model: the workers compute with
  quotients of step counts and with percentages.
\<close>

definition pow2 :: "int \<Rightarrow> rat" where
  "pow2 e = (if 0 \<le> e then 2 ^ nat e else 1 / 2 ^ nat (- e))"

definition round_half_even :: "rat \<Rightarrow> int" where
  "round_half_even x =
     (let f = \<lfloor>x\<rfloor>; d = x - of_int f
      in if d < 1 / 2 then f
         else if 1 / 2 < d then f + 1
         else if even f then f else f + 1)"

definition binade :: "rat \<Rightarrow> int" where
  "binade x =
     (let c = bitlen (fst (quotient_of x)) - bitlen (snd (quotient_of x))
      in if pow2 c \<le> x then c else c - 1)"

definition fl :: "rat \<Rightarrow> pyfloat" where
  "fl x =
     (if x = 0 then 0
      else let e = binade \<bar>x\<bar> - 52
           in sgn x * (of_int (round_half_even (\<bar>x\<bar> / pow2 e)) * pow2 e))"

text \<open>\<^verbatim>\<open>int(x)\<close> of a float truncates toward zero.\<close>

definition py_int :: "pyfloat \<Rightarrow> int" where
  "py_int x = (if 0 \<le> x then \<lfloor>x\<rfloor> else \<lceil>x\<rceil>)"

text \<open>
  The expression both workers use for the percentage:
  \<^verbatim>\<open>int((current / total) * 100)\<close>, a true division of two integers, a float
  multiplication and a truncation. The division raises \<^verbatim>\<open>ZeroDivisionError\<close> when
  \<open>tot = 0\<close>, which is \<open>None\<close> here.
\<close>

definition progress_percent :: "int \<Rightarrow> int \<Rightarrow> int option" where
  "progress_percent cur tot =
     (if tot = 0 then None
      else Some (py_int (fl (fl (of_int cur / of_int tot) * 100))))"

section \<open>Admission\<close>

text \<open>
  \<^verbatim>\<open>validate_dataset\<close>: existence, size ceiling, extension whitelist, in this order.
  \<^verbatim>\<open>os.path.getsize\<close> raising is the \<open>stat_error\<close> of the file; the extension is
  \<^verbatim>\<open>os.path.splitext(file_path)[1].lower()\<close> and the metadata the result of
  \<^verbatim>\<open>_analyze_dataset\<close>, whose parsers are external: both are read from the environment.
\<close>

definition validate_dataset :: "config \<Rightarrow> env \<Rightarrow> string \<Rightarrow> validation_error + dataset_file" where
  "validate_dataset cfg e file_path =
     (if file_path = [] then Inl FileDoesNotExist
      else case lookup_file e file_path of
        None \<Rightarrow> Inl FileDoesNotExist
      | Some f \<Rightarrow>
          (case stat_error f of
             Some msg \<Rightarrow> Inl (ValidationError msg)
           | None \<Rightarrow>
               if file_size f > max_file_size cfg then Inl (FileTooLarge (max_file_size cfg))
               else if file_ext f \<notin> set (supported_formats cfg)
               then Inl (UnsupportedFormat (supported_formats cfg))
               else Inr f))"

text \<open>
  \<^verbatim>\<open>job_id = f"job_{int(time.time())}_{len(self.training_jobs)}"\<close> and the
  \<^verbatim>\<open>TrainingJob(...)\<close> built by \<^verbatim>\<open>start_training\<close>, with its two log lines.
\<close>

definition new_job_id :: "env \<Rightarrow> state \<Rightarrow> string" where
  "new_job_id e s = ''job_'' @ str_nat (unix_time e) @ ''_'' @ str_nat (length (training_jobs s))"

definition new_job ::
  "env \<Rightarrow> string \<Rightarrow> string \<Rightarrow> string \<Rightarrow> string \<Rightarrow> pyfloat \<Rightarrow> int \<Rightarrow> int \<Rightarrow> int \<Rightarrow> dataset_file
     \<Rightarrow> TrainingJob" where
  "new_job e job_id mname bmodel dpath lr bsize eps mlen meta =
     \<lparr>id_job = job_id, model_name = mname, base_model = bmodel, dataset_path = dpath,
      status = Pending, progress = 0, learning_rate = lr, batch_size = bsize, epochs = eps,
      max_length = mlen, start_time = now_iso e, end_time = None,
      logs = [''Training job created at '' @ now_fmt e,
              ''Dataset: '' @ basename dpath @ '' ('' @ str_int (num_samples meta) @ '' samples)''],
      error_message = None, model_path = None, metrics = []\<rparr>"

text \<open>
  \<^verbatim>\<open>start_training\<close> up to and including the call of \<^verbatim>\<open>_simulate_training\<close>, which
  starts the worker thread (lines 192 to 231): the four rejections, then the job is
  created, stored, counted and its worker started. The result is the new job id
  (\<^verbatim>\<open>"Training started successfully! Job ID: <id>"\<close>). The \<^verbatim>\<open>description\<close> argument
  is never read by the source.
\<close>

definition start_training_admit ::
  "config \<Rightarrow> env \<Rightarrow> state \<Rightarrow> string \<Rightarrow> string \<Rightarrow> string \<Rightarrow> pyfloat \<Rightarrow> int \<Rightarrow> int \<Rightarrow> int \<Rightarrow> string
     \<Rightarrow> (error + string) \<times> state" where
  "start_training_admit cfg e s mname bmodel dpath lr bsize eps mlen descr =
     (if strip mname = [] then (Inl ModelNameRequired, s)
      else if mname \<in> set (map fst (trained_models s)) then (Inl (ModelExists mname), s)
      else if active_jobs s \<ge> max_concurrent_jobs cfg
      then (Inl (MaxJobsReached (max_concurrent_jobs cfg)), s)
      else case validate_dataset cfg e dpath of
        Inl msg \<Rightarrow> (Inl (DatasetValidationFailed msg), s)
      | Inr meta \<Rightarrow>
          (let job_id = new_job_id e s;
               job = new_job e job_id mname bmodel dpath lr bsize eps mlen meta
           in (Inr job_id,
               s\<lparr>training_jobs := AList.update job_id job (training_jobs s),
                 active_jobs := active_jobs s + 1\<rparr>)))"

text \<open>
  The whole of \<^verbatim>\<open>start_training\<close>: after the worker thread has been started,
  \<^verbatim>\<open>_save_state()\<close> runs (line 233) and the function returns.
\<close>

definition start_training ::
  "config \<Rightarrow> env \<Rightarrow> state \<Rightarrow> string \<Rightarrow> string \<Rightarrow> string \<Rightarrow> pyfloat \<Rightarrow> int \<Rightarrow> int \<Rightarrow> int \<Rightarrow> string
     \<Rightarrow> (error + string) \<times> state" where
  "start_training cfg e s mname bmodel dpath lr bsize eps mlen descr =
     (case start_training_admit cfg e s mname bmodel dpath lr bsize eps mlen descr of
        (Inl err, s') \<Rightarrow> (Inl err, s')
      | (Inr job_id, s') \<Rightarrow> (Inr job_id, save_state e s'))"

section \<open>Cancellation\<close>

text \<open>
  A worker and \<^verbatim>\<open>cancel_training\<close> hold a reference to the job object stored in
  \<^verbatim>\<open>training_jobs\<close>; assigning to its fields is an update of the entry under its id.
\<close>

definition upd_job :: "string \<Rightarrow> (TrainingJob \<Rightarrow> TrainingJob) \<Rightarrow> state \<Rightarrow> state" where
  "upd_job job_id f s = s\<lparr>training_jobs := AList.map_entry job_id f (training_jobs s)\<rparr>"

text \<open>
  \<^verbatim>\<open>cancel_training\<close>. The result is the job id on success
  (\<^verbatim>\<open>"Training job <id> cancelled successfully"\<close>).
\<close>

definition cancel_job :: "env \<Rightarrow> TrainingJob \<Rightarrow> TrainingJob" where
  "cancel_job e j =
     j\<lparr>status := Cancelled, logs := logs j @ [''Training cancelled at '' @ now_fmt e]\<rparr>"

definition cancel_training :: "env \<Rightarrow> state \<Rightarrow> string \<Rightarrow> (error + string) \<times> state" where
  "cancel_training e s job_id =
     (case map_of (training_jobs s) job_id of
        None \<Rightarrow> (Inl (JobNotFound job_id), s)
      | Some job \<Rightarrow>
          if status job \<notin> set [Pending, Training]
          then (Inl (CannotCancel (status job)), s)
          else (Inr job_id, save_state e (upd_job job_id (cancel_job e) s)))"

section \<open>The simulated worker of \<^verbatim>\<open>ModelTrainerAPI\<close>\<close>

text \<open>
  \<^verbatim>\<open>_simulate_training.training_worker\<close> runs in its own thread, so other operations run
  between its statements. A step of the model holds at most one assignment to
  \<^verbatim>\<open>job.status\<close>, so that every status the thread writes is a state of the model.
  Its control points: \<open>AtStart\<close> (thread started, nothing run),
  \<open>AtCheck epoch step\<close> (about to test \<^verbatim>\<open>job.status == 'cancelled'\<close> in this
  iteration), \<open>AtSleep epoch step\<close> (test passed, inside \<^verbatim>\<open>time.sleep(0.5)\<close>, progress
  not yet written), \<open>AtComplete\<close> (both loops exhausted, about to run line 262),
  \<open>AtStamp\<close> (status set to completed, about to run lines 263 to 282), \<open>AtWrite\<close>
  (model registered, about to open the model file on line 285) and \<open>Exited\<close>.
\<close>

datatype pc = AtStart | AtCheck int int | AtSleep int int | AtComplete | AtStamp | AtWrite | Exited

text \<open>Where the nested \<^verbatim>\<open>for\<close> loops go after the body of iteration \<open>(epoch, step)\<close>.\<close>

definition loop_next :: "int \<Rightarrow> int \<Rightarrow> int \<Rightarrow> pc" where
  "loop_next n epoch step =
     (if step + 1 < 10 then AtCheck epoch (step + 1)
      else if epoch + 1 < n then AtCheck (epoch + 1) 0
      else AtComplete)"

text \<open>The \<^verbatim>\<open>finally\<close> block: lines 294 to 296.\<close>

definition worker_finally :: "env \<Rightarrow> state \<Rightarrow> state" where
  "worker_finally e s = save_state e (s\<lparr>active_jobs := active_jobs s - 1\<rparr>)"

text \<open>
  The statements that mutate the job object, as functions on the job record: lines 245
  and 246; the body of one iteration after the cancellation test, lines 254 to 259;
  line 262; lines 263 to 265; and the \<^verbatim>\<open>except\<close> branch, lines 289 to 291.
\<close>

definition begin_job :: "TrainingJob \<Rightarrow> TrainingJob" where
  "begin_job j = j\<lparr>status := Training, logs := logs j @ [''Training started...'']\<rparr>"

definition progress_job :: "env \<Rightarrow> int \<Rightarrow> int \<Rightarrow> TrainingJob \<Rightarrow> TrainingJob" where
  "progress_job e epoch step j =
     (let p = fl (fl (of_int (epoch * 10 + step + 1) / of_int (epochs j * 10)) * 100)
      in j\<lparr>progress := py_int p,
           logs := (if step mod 3 = 0
                    then logs j @
                      [''Epoch '' @ str_int (epoch + 1) @ ''/'' @ str_int (epochs j) @
                       '', Step '' @ str_int (step + 1) @ ''/10 - Loss: '' @
                       fmt_4f e (fl (1 / 2 - fl (p / 200)))]
                    else logs j)\<rparr>)"

definition mark_job :: "TrainingJob \<Rightarrow> TrainingJob" where
  "mark_job j = j\<lparr>status := Completed\<rparr>"

definition stamp_job :: "env \<Rightarrow> TrainingJob \<Rightarrow> TrainingJob" where
  "stamp_job e j =
     j\<lparr>end_time := Some (now_iso e), progress := 100,
       logs := logs j @ [''Training completed successfully!'']\<rparr>"

definition fail_job :: "string \<Rightarrow> TrainingJob \<Rightarrow> TrainingJob" where
  "fail_job msg j =
     j\<lparr>status := Failed, error_message := Some msg,
       logs := logs j @ [''Training failed: '' @ msg]\<rparr>"

text \<open>
  Lines 268 to 282: the \<^verbatim>\<open>ModelInfo\<close> is built from the job and stored in the
  registry under the model name of the job.
\<close>

definition model_file_path :: "config \<Rightarrow> TrainingJob \<Rightarrow> string" where
  "model_file_path cfg job = path_join (models_directory cfg) (model_name job @ ''.model'')"

definition new_model_info :: "config \<Rightarrow> env \<Rightarrow> string \<Rightarrow> TrainingJob \<Rightarrow> ModelInfo" where
  "new_model_info cfg e job_id job =
     \<lparr>name = model_name job, base_model_m = base_model job,
      model_path_m = model_file_path cfg job,
      training_job_id = job_id, created_at = now_iso e,
      dataset_info = [(''path'', PStr (dataset_path job)), (''samples'', PInt 1000)],
      performance_metrics = [(''accuracy'', fl (95 / 100)), (''loss'', fl (5 / 100))],
      model_size = 1024 * 1024 * 50,
      description = Some (''Custom model trained on '' @ basename (dataset_path job))\<rparr>"

definition worker_register :: "config \<Rightarrow> env \<Rightarrow> string \<Rightarrow> TrainingJob \<Rightarrow> state \<Rightarrow> state" where
  "worker_register cfg e job_id job s =
     (let s1 = upd_job job_id (stamp_job e) s
      in s1\<lparr>trained_models :=
              AList.update (model_name job) (new_model_info cfg e job_id job) (trained_models s1)\<rparr>)"

text \<open>
  Lines 285 to 292: the model file is written; when \<^verbatim>\<open>open\<close> or \<^verbatim>\<open>write\<close> raises,
  the \<^verbatim>\<open>except\<close> branch marks the job failed. The file content interpolates
  \<^verbatim>\<open>job.end_time\<close>.
\<close>

definition worker_write :: "config \<Rightarrow> env \<Rightarrow> string \<Rightarrow> TrainingJob \<Rightarrow> state \<Rightarrow> state" where
  "worker_write cfg e job_id job s =
     (case model_write_error e of
        None \<Rightarrow>
          s\<lparr>model_files :=
               AList.update (model_file_path cfg job)
                 (''Model: '' @ model_name job @ [CHR 0x0A] @ ''Trained: '' @
                  (case end_time job of None \<Rightarrow> ''None'' | Some t \<Rightarrow> t))
                 (model_files s)\<rparr>
      | Some msg \<Rightarrow> upd_job job_id (fail_job msg) s)"

text \<open>
  One step of the worker thread of job \<open>job_id\<close>. The worker returns at once,
  outside the \<^verbatim>\<open>try\<close>, when the job is not in the registry.
\<close>

definition worker_step :: "config \<Rightarrow> env \<Rightarrow> string \<Rightarrow> pc \<Rightarrow> state \<Rightarrow> pc \<times> state" where
  "worker_step cfg e job_id p s =
     (case map_of (training_jobs s) job_id of
        None \<Rightarrow> (Exited, s)
      | Some job \<Rightarrow>
          (case p of
             AtStart \<Rightarrow>
               (if 0 < epochs job then AtCheck 0 0 else AtComplete, upd_job job_id begin_job s)
           | AtCheck epoch step \<Rightarrow>
               if status job = Cancelled then (Exited, worker_finally e s)
               else (AtSleep epoch step, s)
           | AtSleep epoch step \<Rightarrow>
               (loop_next (epochs job) epoch step,
                upd_job job_id (progress_job e epoch step) s)
           | AtComplete \<Rightarrow> (AtStamp, upd_job job_id mark_job s)
           | AtStamp \<Rightarrow> (AtWrite, worker_register cfg e job_id job s)
           | AtWrite \<Rightarrow> (Exited, worker_finally e (worker_write cfg e job_id job s))
           | Exited \<Rightarrow> (Exited, s)))"

text \<open>
  What the step at a control point does to the job object of the worker, collected from
  the branches of \<^const>\<open>worker_step\<close>.
\<close>

definition worker_job :: "env \<Rightarrow> pc \<Rightarrow> TrainingJob \<Rightarrow> TrainingJob" where
  "worker_job e p j =
     (case p of
        AtStart \<Rightarrow> begin_job j
      | AtCheck epoch step \<Rightarrow> j
      | AtSleep epoch step \<Rightarrow> progress_job e epoch step j
      | AtComplete \<Rightarrow> mark_job j
      | AtStamp \<Rightarrow> stamp_job e j
      | AtWrite \<Rightarrow> (case model_write_error e of None \<Rightarrow> j | Some msg \<Rightarrow> fail_job msg j)
      | Exited \<Rightarrow> j)"

section \<open>The worker of \<^verbatim>\<open>TrainingManager\<close>\<close>

text \<open>
  \<^verbatim>\<open>_start_real_training.training_worker\<close> drives the external trainer. What the
  external code does is an event the worker reacts to: how the set-up (directory,
  tokenizer, model, dataset, trainer construction) ends, the callbacks the trainer invokes
  while \<^verbatim>\<open>trainer.train()\<close> runs, how \<^verbatim>\<open>train\<close> ends, and how evaluation and
  \<^verbatim>\<open>save_model\<close> end. \<open>SetupRaises n msg\<close> is an exception raised after \<open>n\<close> of
  the four set-up log lines were appended. \<open>OnLog zero step max_steps loss lr\<close> carries
  \<^verbatim>\<open>state.is_local_process_zero\<close>, \<^verbatim>\<open>state.global_step\<close>,
  \<^verbatim>\<open>state.max_steps\<close> and the rendered \<^verbatim>\<open>loss\<close> and \<^verbatim>\<open>learning_rate\<close>
  entries of \<^verbatim>\<open>logs\<close> when present.
\<close>

datatype real_event =
    Begin
  | SetupOk int int
  | SetupRaises nat string
  | OnTrainBegin
  | OnStepBegin
  | OnLog bool int int "string option" "string option"
  | TrainReturns
  | TrainRaises string
  | EvaluateOk string
  | EvaluateRaises string
  | SaveModelOk
  | SaveModelRaises string

text \<open>
  Control points: \<open>RStart\<close>, \<open>RSetup\<close> (status set to initializing),
  \<open>RTrainStart\<close> (\<^verbatim>\<open>trainer.train()\<close> called, no callback yet: the trainer invokes
  \<^verbatim>\<open>on_train_begin\<close> before every other callback), \<open>RTrain stop\<close> (inside the
  training loop, \<open>stop\<close> being \<^verbatim>\<open>control.should_training_stop\<close>), \<open>RFinish\<close>
  (\<^verbatim>\<open>train\<close> has returned), \<open>RSave\<close> (status set to completed, inside
  \<^verbatim>\<open>save_model\<close>) and \<open>RExited\<close>. As for the simulated worker, a step holds at most
  one assignment to the status.
\<close>

datatype rpc = RStart | RSetup | RTrainStart | RTrain bool | RFinish | RSave | RExited

definition add_log :: "string \<Rightarrow> TrainingJob \<Rightarrow> TrainingJob" where
  "add_log line j = j\<lparr>logs := logs j @ [line]\<rparr>"

text \<open>The \<^verbatim>\<open>except Exception as e\<close> branch, lines 190 to 199.\<close>

definition real_except :: "string \<Rightarrow> string \<Rightarrow> state \<Rightarrow> state" where
  "real_except job_id msg s =
     upd_job job_id
       (\<lambda>j. if status j = Cancelled
            then add_log ''Training run was successfully cancelled by the user.'' j
            else add_log (''Training failed unexpectedly: '' @ msg)
                   (j\<lparr>status := Failed, error_message := Some msg\<rparr>)) s"

text \<open>
  The \<^verbatim>\<open>finally\<close> branch, lines 201 to 206. \<^verbatim>\<open>not job.end_time\<close> holds for
  \<^verbatim>\<open>None\<close> and for the empty string. \<^verbatim>\<open>TrainingManager._save_state\<close> only prints.
\<close>

definition real_finally :: "env \<Rightarrow> string \<Rightarrow> state \<Rightarrow> state" where
  "real_finally e job_id s =
     upd_job job_id
       (\<lambda>j. if end_time j = None \<or> end_time j = Some [] then j\<lparr>end_time := Some (now_iso e)\<rparr> else j)
       (s\<lparr>active_jobs := active_jobs s - 1\<rparr>)"

text \<open>The four log lines of the set-up, lines 99 to 134 and 53.\<close>

definition setup_logs :: "TrainingJob \<Rightarrow> int \<Rightarrow> int \<Rightarrow> string list" where
  "setup_logs job ntrain neval =
     [''Loading base model and tokenizer: '' @ base_model job @ ''...'',
      ''Loading and processing dataset: '' @ dataset_path job @ ''...'',
      ''Dataset processed. Training samples: '' @ str_int ntrain @
        '', Validation samples: '' @ str_int neval,
      ''Training callback initialized.'']"

text \<open>\<^verbatim>\<open>JobProgressCallback.on_log\<close>, lines 65 to 78, when the division succeeds.\<close>

definition on_log :: "int \<Rightarrow> int \<Rightarrow> int \<Rightarrow> string option \<Rightarrow> string option \<Rightarrow> TrainingJob \<Rightarrow> TrainingJob" where
  "on_log p global_step max_steps loss lr j =
     add_log (''Step '' @ str_int global_step @ ''/'' @ str_int max_steps @
              (case loss of None \<Rightarrow> [] | Some t \<Rightarrow> '' - Loss: '' @ t) @
              (case lr of None \<Rightarrow> [] | Some t \<Rightarrow> '' - LR: '' @ t))
       (j\<lparr>progress := p\<rparr>)"

text \<open>Lines 174 to 180: from the return of \<^verbatim>\<open>train\<close> to the call of \<^verbatim>\<open>save_model\<close>.\<close>

definition real_mark_completed :: "env \<Rightarrow> string \<Rightarrow> TrainingJob \<Rightarrow> TrainingJob" where
  "real_mark_completed e metrics_text j =
     (add_log (''Final evaluation metrics: '' @ metrics_text)
        (add_log ''Training process finished. Evaluating final model...'' j))
       \<lparr>status := Completed, end_time := Some (now_iso e), progress := 100\<rparr>"

text \<open>
  One step of the worker of job \<open>job\<close> (the object found under \<open>job_id\<close>) on the next
  event. An event that cannot occur at a control point leaves everything as it is.
\<close>

definition real_worker :: "config \<Rightarrow> env \<Rightarrow> string \<Rightarrow> TrainingJob \<Rightarrow> rpc \<Rightarrow> real_event \<Rightarrow> state \<Rightarrow> rpc \<times> state" where
  "real_worker cfg e job_id job p ev s =
     (case p of
        RStart \<Rightarrow>
          (case ev of
             Begin \<Rightarrow>
               (RSetup,
                upd_job job_id
                  (\<lambda>j. add_log ''Initializing training environment...''
                         (j\<lparr>status := Initializing\<rparr>)) s)
           | _ \<Rightarrow> (p, s))
      | RSetup \<Rightarrow>
          (case ev of
             SetupOk ntrain neval \<Rightarrow>
               (RTrainStart,
                upd_job job_id (\<lambda>j. j\<lparr>logs := logs j @ setup_logs job ntrain neval\<rparr>) s)
           | SetupRaises n msg \<Rightarrow>
               (RExited,
                real_finally e job_id
                  (real_except job_id msg
                     (upd_job job_id
                        (\<lambda>j. j\<lparr>logs := logs j @ take n (setup_logs job 0 0)\<rparr>) s)))
           | _ \<Rightarrow> (p, s))
      | RTrainStart \<Rightarrow>
          (case ev of
             OnTrainBegin \<Rightarrow>
               (RTrain False,
                upd_job job_id
                  (\<lambda>j. add_log ''Hugging Face Trainer has started the training run.''
                         (j\<lparr>status := Training\<rparr>)) s)
           | TrainRaises msg \<Rightarrow> (RExited, real_finally e job_id (real_except job_id msg s))
           | _ \<Rightarrow> (p, s))
      | RTrain stop \<Rightarrow>
          (case ev of
             OnStepBegin \<Rightarrow>
               if status job = Cancelled
               then (RTrain True,
                     upd_job job_id
                       (add_log ''Cancellation signal received. Stopping training.'') s)
               else (RTrain stop, s)
           | OnLog zero global_step max_steps loss lr \<Rightarrow>
               if \<not> zero then (RTrain stop, s)
               else (case progress_percent global_step max_steps of
                       None \<Rightarrow>
                         (RExited,
                          real_finally e job_id (real_except job_id ''division by zero'' s))
                     | Some pr \<Rightarrow>
                         (RTrain stop,
                          upd_job job_id (on_log pr global_step max_steps loss lr) s))
           | TrainReturns \<Rightarrow> (RFinish, s)
           | TrainRaises msg \<Rightarrow> (RExited, real_finally e job_id (real_except job_id msg s))
           | _ \<Rightarrow> (p, s))
      | RFinish \<Rightarrow>
          (case ev of
             EvaluateRaises msg \<Rightarrow>
               (RExited,
                real_finally e job_id
                  (real_except job_id msg
                     (upd_job job_id
                        (add_log ''Training process finished. Evaluating final model...'') s)))
           | EvaluateOk metrics_text \<Rightarrow>
               (RSave, upd_job job_id (real_mark_completed e metrics_text) s)
           | _ \<Rightarrow> (p, s))
      | RSave \<Rightarrow>
          (case ev of
             SaveModelRaises msg \<Rightarrow> (RExited, real_finally e job_id (real_except job_id msg s))
           | SaveModelOk \<Rightarrow>
               (RExited,
                real_finally e job_id
                  (upd_job job_id
                     (add_log (''Model saved successfully to '' @
                               path_join (models_directory cfg) (model_name job))) s))
           | _ \<Rightarrow> (p, s))
      | RExited \<Rightarrow> (p, s))"

text \<open>
  The worker looks its job up first and returns, outside the \<^verbatim>\<open>try\<close>, when there
  is none (lines 83 to 86).
\<close>

definition real_step :: "config \<Rightarrow> env \<Rightarrow> string \<Rightarrow> rpc \<Rightarrow> real_event \<Rightarrow> state \<Rightarrow> rpc \<times> state" where
  "real_step cfg e job_id p ev s =
     (case map_of (training_jobs s) job_id of
        None \<Rightarrow> (RExited, s)
      | Some job \<Rightarrow> real_worker cfg e job_id job p ev s)"

text \<open>
  The life of one job under this worker: the steps of the worker on the events of the
  trainer, interleaved with calls of \<^verbatim>\<open>cancel_training\<close> for the job, which is how the
  ``main application'' of the comment on line 60 sets the status to cancelled.
\<close>

datatype job_event = JCancel env | JStep env real_event

fun job_step :: "config \<Rightarrow> string \<Rightarrow> rpc \<times> state \<Rightarrow> job_event \<Rightarrow> rpc \<times> state" where
  "job_step cfg job_id (p, s) (JCancel e) = (p, snd (cancel_training e s job_id))"
| "job_step cfg job_id (p, s) (JStep e ev) = real_step cfg e job_id p ev s"

definition job_run :: "config \<Rightarrow> string \<Rightarrow> state \<Rightarrow> job_event list \<Rightarrow> rpc \<times> state" where
  "job_run cfg job_id s evs = foldl (job_step cfg job_id) (RStart, s) evs"

section \<open>The orchestrator and its worker threads as a transition system\<close>

text \<open>
  The arguments of one \<^verbatim>\<open>start_training\<close> call.
\<close>

record request =
  r_model_name :: string
  r_base_model :: string
  r_dataset_path :: string
  r_learning_rate :: pyfloat
  r_batch_size :: int
  r_epochs :: int
  r_max_length :: int
  r_description :: string

definition submit :: "config \<Rightarrow> env \<Rightarrow> state \<Rightarrow> request \<Rightarrow> (error + string) \<times> state" where
  "submit cfg e s r =
     start_training cfg e s (r_model_name r) (r_base_model r) (r_dataset_path r)
       (r_learning_rate r) (r_batch_size r) (r_epochs r) (r_max_length r) (r_description r)"

text \<open>The job record that an accepted request creates.\<close>

definition req_job :: "env \<Rightarrow> state \<Rightarrow> request \<Rightarrow> dataset_file \<Rightarrow> TrainingJob" where
  "req_job e s r meta =
     new_job e (new_job_id e s) (r_model_name r) (r_base_model r) (r_dataset_path r)
       (r_learning_rate r) (r_batch_size r) (r_epochs r) (r_max_length r) meta"

text \<open>
  \<^verbatim>\<open>delete_model\<close>, lines 423 to 442: the model file is removed when it exists, the
  entry is deleted from the registry and the catalogs are saved; an exception of
  \<^verbatim>\<open>os.remove\<close> is caught and nothing else is done.
\<close>

definition delete_model :: "env \<Rightarrow> state \<Rightarrow> string \<Rightarrow> (error + unit) \<times> state" where
  "delete_model e s mname =
     (case map_of (trained_models s) mname of
        None \<Rightarrow> (Inl (ModelNotFound mname), s)
      | Some model \<Rightarrow>
          (case (map_of (model_files s) (model_path_m model), remove_error e) of
             (Some content, Some msg) \<Rightarrow> (Inl (ErrorDeletingModel msg), s)
           | _ \<Rightarrow>
               (Inr (),
                save_state e
                  (s\<lparr>model_files := AList.delete (model_path_m model) (model_files s),
                     trained_models := AList.delete mname (trained_models s)\<rparr>))))"

text \<open>
  \<^verbatim>\<open>__init__\<close> followed by \<^verbatim>\<open>_load_state\<close>, on the files left by the state \<open>disk\<close>:
  every record of a catalog is stored under its own \<^verbatim>\<open>id\<close> (a job) or \<^verbatim>\<open>name\<close> (a
  model), in the order of the file; the counter starts at zero. The file content is
  the list of records: \<^verbatim>\<open>json.dump\<close> of \<^verbatim>\<open>asdict(record)\<close> and the constructor call
  on the result of \<^verbatim>\<open>json.load\<close> are taken as inverse to each other.
\<close>

definition load_state :: "state \<Rightarrow> state" where
  "load_state disk =
     \<lparr>training_jobs =
        (case jobs_file disk of
           None \<Rightarrow> []
         | Some jobs_data \<Rightarrow> foldl (\<lambda>d job. AList.update (id_job job) job d) [] jobs_data),
      trained_models =
        (case models_file disk of
           None \<Rightarrow> []
         | Some models_data \<Rightarrow> foldl (\<lambda>d m. AList.update (name m) m d) [] models_data),
      active_jobs = 0,
      jobs_file = jobs_file disk, models_file = models_file disk,
      model_files = model_files disk\<rparr>"

text \<open>
  A running process: the instance state and one entry per worker thread started, in the
  order of their start, holding the job id the thread closed over and its control point.
  An event is one call of \<^verbatim>\<open>start_training\<close>, \<^verbatim>\<open>cancel_training\<close> or
  \<^verbatim>\<open>delete_model\<close>, one step of the \<open>i\<close>-th worker thread (each reads its own
  environment), or the end of the process followed by the start of a new one on the same
  files: the worker threads are daemon threads and end with the process, the new
  instance loads the catalogs.
\<close>

record system =
  api :: state
  workers :: "(string \<times> pc) list"

datatype event =
    Submit env request
  | Cancel env string
  | Delete env string
  | Work env nat
  | Restart

fun sys_step :: "config \<Rightarrow> system \<Rightarrow> event \<Rightarrow> system" where
  "sys_step cfg sy (Submit e r) =
     (case submit cfg e (api sy) r of
        (Inl err, s') \<Rightarrow> sy\<lparr>api := s'\<rparr>
      | (Inr job_id, s') \<Rightarrow> \<lparr>api = s', workers = workers sy @ [(job_id, AtStart)]\<rparr>)"
| "sys_step cfg sy (Cancel e job_id) = sy\<lparr>api := snd (cancel_training e (api sy) job_id)\<rparr>"
| "sys_step cfg sy (Delete e mname) = sy\<lparr>api := snd (delete_model e (api sy) mname)\<rparr>"
| "sys_step cfg sy (Work e i) =
     (if i < length (workers sy)
      then (case worker_step cfg e (fst (workers sy ! i)) (snd (workers sy ! i)) (api sy) of
              (p', s') \<Rightarrow> \<lparr>api = s', workers = (workers sy)[i := (fst (workers sy ! i), p')]\<rparr>)
      else sy)"
| "sys_step cfg sy Restart = \<lparr>api = load_state (api sy), workers = []\<rparr>"

text \<open>
  The first process starts on a machine without catalog files: empty registries, counter
  zero.
\<close>

definition init_state :: state where
  "init_state = \<lparr>training_jobs = [], trained_models = [], active_jobs = 0,
                 jobs_file = None, models_file = None, model_files = []\<rparr>"

definition init_system :: system where
  "init_system = \<lparr>api = init_state, workers = []\<rparr>"

definition run :: "config \<Rightarrow> event list \<Rightarrow> system" where
  "run cfg evs = foldl (sys_step cfg) init_system evs"

text \<open>
  The job stored under an id, the control point of the worker thread of a job (\<open>None\<close>:
  this process started no worker for it), and the number of worker threads that have not
  exited.
\<close>

definition job_of :: "system \<Rightarrow> string \<Rightarrow> TrainingJob option" where
  "job_of sy job_id = map_of (training_jobs (api sy)) job_id"

definition worker_of :: "system \<Rightarrow> string \<Rightarrow> pc option" where
  "worker_of sy job_id = map_of (workers sy) job_id"

definition live_workers :: "system \<Rightarrow> nat" where
  "live_workers sy = length (filter (\<lambda>w. snd w \<noteq> Exited) (workers sy))"

text \<open>
  The jobs that this process admitted and that are not in a terminal status: the
  entries of the worker list whose job is not terminal.
\<close>

definition admitted_nonterminal :: "system \<Rightarrow> nat" where
  "admitted_nonterminal sy =
     length (filter (\<lambda>w. case job_of sy (fst w) of None \<Rightarrow> False | Some j \<Rightarrow> \<not> terminal (status j))
               (workers sy))"

text \<open>The record of a job in the jobs catalog on disk.\<close>

definition disk_job :: "state \<Rightarrow> string \<Rightarrow> TrainingJob option" where
  "disk_job s job_id =
     (case jobs_file s of
        None \<Rightarrow> None
      | Some jobs_data \<Rightarrow> map_of (map (\<lambda>j. (id_job j, j)) jobs_data) job_id)"

text \<open>
  A job is settled when its status is terminal, no thread of the process will write to
  it any more (its worker has exited, or it was loaded from the catalog and has none),
  and the jobs catalog on disk holds the very same record.
\<close>

definition settled :: "system \<Rightarrow> string \<Rightarrow> TrainingJob \<Rightarrow> bool" where
  "settled sy job_id j \<longleftrightarrow>
     job_of sy job_id = Some j \<and> terminal (status j)
     \<and> (worker_of sy job_id = None \<or> worker_of sy job_id = Some Exited)
     \<and> disk_job (api sy) job_id = Some j"

section \<open>Invariants of the transition system\<close>

text \<open>
  The number that ends a job id: \<^verbatim>\<open>len(self.training_jobs)\<close> at admission.
\<close>

definition is_digit :: "char \<Rightarrow> bool" where
  "is_digit c \<longleftrightarrow> 48 \<le> (of_char c :: nat) \<and> (of_char c :: nat) \<le> 57"

definition digits_val :: "string \<Rightarrow> nat" where
  "digits_val ds = foldl (\<lambda>a c. 10 * a + (of_char c - 48)) 0 ds"

definition id_index :: "string \<Rightarrow> nat" where
  "id_index k = digits_val (rev (takeWhile is_digit (rev k)))"

definition idx_ok :: "string list \<Rightarrow> bool" where
  "idx_ok ks \<longleftrightarrow> map id_index ks = [0..<length ks]"

text \<open>
  Which statuses a job can have while its worker is at a control point: before the
  worker's first statement the job is pending, inside the loops it is training, between
  line 262 and the \<^verbatim>\<open>finally\<close> block it is completed, after the exit it is terminal;
  \<^verbatim>\<open>cancel_training\<close> may have marked it cancelled while it was pending or training.
\<close>

fun pc_ok :: "pc \<Rightarrow> status \<Rightarrow> bool" where
  "pc_ok AtStart st = (st = Pending \<or> st = Cancelled)"
| "pc_ok Exited st = terminal st"
| "pc_ok (AtCheck epoch step) st = (st = Training \<or> st = Cancelled)"
| "pc_ok (AtSleep epoch step) st = (st = Training \<or> st = Cancelled)"
| "pc_ok AtComplete st = (st = Training \<or> st = Cancelled)"
| "pc_ok AtStamp st = (st = Completed)"
| "pc_ok AtWrite st = (st = Completed)"

definition job_ok :: "string \<times> TrainingJob \<Rightarrow> bool" where
  "job_ok kj \<longleftrightarrow> id_job (snd kj) = fst kj \<and> status (snd kj) \<noteq> Initializing"

definition worker_ok :: "state \<Rightarrow> string \<times> pc \<Rightarrow> bool" where
  "worker_ok s kp \<longleftrightarrow>
     (case map_of (training_jobs s) (fst kp) of
        None \<Rightarrow> False
      | Some j \<Rightarrow> pc_ok (snd kp) (status j))"

definition file_ok :: "TrainingJob list option \<Rightarrow> bool" where
  "file_ok f \<longleftrightarrow>
     (case f of
        None \<Rightarrow> True
      | Some jobs_data \<Rightarrow>
          idx_ok (map id_job jobs_data) \<and> list_all (\<lambda>j. status j \<noteq> Initializing) jobs_data)"

text \<open>
  The \<open>i\<close>-th job of the registry carries the index \<open>i\<close> in its id, is stored under
  its own id and is never initializing; every worker thread has a job of its own, in a
  status that fits its control point; the counter equals the number of threads that
  have not exited; every model is registered under its own name; the jobs catalog on
  disk holds records with the indices in order.
\<close>

definition sys_inv :: "system \<Rightarrow> bool" where
  "sys_inv sy \<longleftrightarrow>
     idx_ok (map fst (training_jobs (api sy)))
     \<and> list_all job_ok (training_jobs (api sy))
     \<and> distinct (map fst (workers sy))
     \<and> list_all (worker_ok (api sy)) (workers sy)
     \<and> active_jobs (api sy) = int (live_workers sy)
     \<and> distinct (map fst (trained_models (api sy)))
     \<and> list_all (\<lambda>km. name (snd km) = fst km) (trained_models (api sy))
     \<and> file_ok (jobs_file (api sy))"

text \<open>
  The edges of the job lifecycle that \<^verbatim>\<open>ModelTrainerAPI\<close> implements: the worker sets
  training, then completed, and failed when writing the model file raises after that;
  \<^verbatim>\<open>cancel_training\<close> sets cancelled.
\<close>

definition api_edge :: "status \<Rightarrow> status \<Rightarrow> bool" where
  "api_edge a b \<longleftrightarrow>
     (a = Pending \<and> b = Training) \<or> (a = Training \<and> b = Completed) \<or>
     (a = Completed \<and> b = Failed) \<or> (a = Pending \<and> b = Cancelled) \<or>
     (a = Training \<and> b = Cancelled)"

text \<open>
  The edges that the worker of \<^verbatim>\<open>TrainingManager\<close> implements, with cancellation by
  \<^verbatim>\<open>cancel_training\<close>: initializing comes between pending and training, and an
  exception marks the job failed from initializing, training or completed.
\<close>

definition real_edge :: "status \<Rightarrow> status \<Rightarrow> bool" where
  "real_edge a b \<longleftrightarrow>
     (a = Pending \<and> b = Initializing) \<or> (a = Initializing \<and> b = Training) \<or>
     (a = Training \<and> b = Completed) \<or>
     (a = Initializing \<and> b = Failed) \<or> (a = Training \<and> b = Failed) \<or>
     (a = Completed \<and> b = Failed) \<or>
     (a = Pending \<and> b = Cancelled) \<or> (a = Training \<and> b = Cancelled)"

text \<open>
  What a worker that has not yet seen the cancellation writes over the status
  cancelled: the simulated worker training (its first statement) or completed (line
  262), the worker of \<^verbatim>\<open>TrainingManager\<close> initializing (line 90) or completed (line
  178).
\<close>

definition overwrite_edge :: "status \<Rightarrow> status \<Rightarrow> bool" where
  "overwrite_edge a b \<longleftrightarrow>
     a = Cancelled \<and> (b = Training \<or> b = Initializing \<or> b = Completed)"

text \<open>
  The edges of the lifecycle as the specification draws it, for comparison: pending,
  initializing, training, then completed or failed; and cancellation from the three live
  statuses.
\<close>

definition spec_edge :: "status \<Rightarrow> status \<Rightarrow> bool" where
  "spec_edge a b \<longleftrightarrow>
     (a = Pending \<and> b = Initializing) \<or> (a = Initializing \<and> b = Training) \<or>
     (a = Training \<and> b = Completed) \<or> (a = Training \<and> b = Failed) \<or>
     ((a = Pending \<or> a = Initializing \<or> a = Training) \<and> b = Cancelled)"

text \<open>
  Which statuses a job can have while the worker of \<^verbatim>\<open>TrainingManager\<close> is at a
  control point.
\<close>

fun rpc_ok :: "rpc \<Rightarrow> status \<Rightarrow> bool" where
  "rpc_ok RStart st = (st = Pending \<or> st = Cancelled)"
| "rpc_ok RSetup st = (st = Initializing)"
| "rpc_ok RTrainStart st = (st = Initializing)"
| "rpc_ok (RTrain stop) st = (st = Training \<or> st = Cancelled)"
| "rpc_ok RFinish st = (st = Training \<or> st = Cancelled)"
| "rpc_ok RSave st = (st = Completed)"
| "rpc_ok RExited st = terminal st"

text \<open>
  The statuses a job shows over a run: one entry per prefix of the event sequence
  (\<open>None\<close> while the job does not exist).
\<close>

definition status_trace :: "config \<Rightarrow> event list \<Rightarrow> string \<Rightarrow> status option list" where
  "status_trace cfg evs k =
     map (\<lambda>n. map_option status (job_of (run cfg (take n evs)) k)) [0..<Suc (length evs)]"

section \<open>Concrete inputs\<close>

text \<open>
  A configuration with the concurrency ceiling set to two, an environment in which the
  file \<^verbatim>\<open>data.csv\<close> exists and every write succeeds, one in which writing the model file
  raises, and requests that differ in the model name and the number of epochs.
\<close>

definition ex_cfg :: config where
  "ex_cfg = \<lparr>logs_directory = ''./logs'', models_directory = ''./models'',
             max_file_size = 104857600,
             supported_formats = [''.json'', ''.jsonl'', ''.csv'', ''.txt'', ''.parquet''],
             max_concurrent_jobs = 2\<rparr>"

definition ex_file :: dataset_file where
  "ex_file = \<lparr>stat_error = None, file_size = 2048, file_ext = ''.csv'', num_samples = 10\<rparr>"

definition ex_env :: env where
  "ex_env = \<lparr>unix_time = 17, now_iso = ''2024-01-01T00:00:17'', now_fmt = ''2024-01-01 00:00:17'',
             lookup_file = (\<lambda>p. if p = ''data.csv'' then Some ex_file else None),
             jobs_write_ok = True, models_write_ok = True, model_write_error = None,
             remove_error = None, fmt_4f = (\<lambda>x. ''0.0000'')\<rparr>"

definition ex_env_fail :: env where
  "ex_env_fail = ex_env\<lparr>model_write_error := Some ''No space left on device''\<rparr>"

definition ex_req :: "string \<Rightarrow> int \<Rightarrow> request" where
  "ex_req mname eps =
     \<lparr>r_model_name = mname, r_base_model = ''b'', r_dataset_path = ''data.csv'',
      r_learning_rate = fl (1 / 1000), r_batch_size = 4, r_epochs = eps, r_max_length = 2048,
      r_description = []\<rparr>"

text \<open>A registry holding one job, \<^verbatim>\<open>job_17_0\<close>, in a given status.\<close>

definition ex_job :: "status \<Rightarrow> TrainingJob" where
  "ex_job st = (new_job ex_env ''job_17_0'' ''m1'' ''b'' ''data.csv'' (fl (1 / 1000)) 4 1 2048 ex_file)
                 \<lparr>status := st\<rparr>"

definition ex_state :: "status \<Rightarrow> state" where
  "ex_state st = init_state\<lparr>training_jobs := [(''job_17_0'', ex_job st)], active_jobs := 1\<rparr>"

text \<open>
  Event sequences with jobs of zero epochs: two jobs are admitted; one job is admitted
  and its worker runs its four steps (start, lines 262, 263 to 282, 285 to 296) and exits.
\<close>

definition ex_two :: "event list" where
  "ex_two = [Submit ex_env (ex_req ''m1'' 0), Submit ex_env (ex_req ''m2'' 0)]"

definition ex_one :: "event list" where
  "ex_one = [Submit ex_env (ex_req ''m1'' 0)]"

definition ex_one_done :: "event list" where
  "ex_one_done = ex_one @ [Work ex_env 0, Work ex_env 0, Work ex_env 0, Work ex_env 0]"

text \<open>
  Event sequences with the job of the scenario of the specification, model \<^verbatim>\<open>m1\<close> with
  one epoch. Its worker takes one step to start, two for each of the ten iterations of
  the inner loop (the cancellation test, then the sleep and the progress), and three to
  complete, register and write.
\<close>

definition ex_started :: "event list" where
  "ex_started = [Submit ex_env (ex_req ''m1'' 1), Work ex_env 0]"

definition ex_iteration :: "event list" where
  "ex_iteration = [Work ex_env 0, Work ex_env 0]"

definition ex_epoch :: "event list" where
  "ex_epoch = ex_iteration @ ex_iteration @ ex_iteration @ ex_iteration @ ex_iteration @
              ex_iteration @ ex_iteration @ ex_iteration @ ex_iteration @ ex_iteration"

definition ex_trained :: "event list" where
  "ex_trained = ex_started @ ex_epoch"

definition ex_marked :: "event list" where
  "ex_marked = ex_trained @ [Work ex_env 0]"

definition ex_registered :: "event list" where
  "ex_registered = ex_marked @ [Work ex_env 0]"

definition ex_success :: "event list" where
  "ex_success = ex_registered @ [Work ex_env 0]"

definition ex_failure :: "event list" where
  "ex_failure = ex_registered @ [Work ex_env_fail 0]"

text \<open>
  The job is cancelled after the last cancellation test of its worker, which then
  completes it; and the job is cancelled while its worker is in the first iteration,
  and the worker reaches its next test.
\<close>

definition ex_late_cancel :: "event list" where
  "ex_late_cancel = ex_trained @ [Cancel ex_env ''job_17_0'', Work ex_env 0]"

definition ex_cancelled :: "event list" where
  "ex_cancelled = [Submit ex_env (ex_req ''m1'' 1), Work ex_env 0, Cancel ex_env ''job_17_0'',
                   Work ex_env 0]"

text \<open>
  Two jobs with one epoch each are admitted; then the worker of the first starts, the
  first job is cancelled and its worker reaches the cancellation test; or the process is
  restarted.
\<close>

definition ex_pair :: "event list" where
  "ex_pair = [Submit ex_env (ex_req ''m1'' 1), Submit ex_env (ex_req ''m2'' 1)]"

definition ex_pair_cancel :: "event list" where
  "ex_pair_cancel = ex_pair @ [Work ex_env 0, Cancel ex_env ''job_17_0'']"

definition ex_pair_released :: "event list" where
  "ex_pair_released = ex_pair_cancel @ [Work ex_env 0]"

definition ex_pair_restart :: "event list" where
  "ex_pair_restart = ex_pair @ [Restart]"

text \<open>
  The state in which \<^verbatim>\<open>start_training\<close> has started the worker thread of the first
  job and has not yet called \<^verbatim>\<open>_save_state\<close>.
\<close>

definition ex_admitted :: state where
  "ex_admitted =
     snd (start_training_admit ex_cfg ex_env init_state ''m1'' ''b'' ''data.csv'' (fl (1 / 1000))
            4 1 2048 [])"

section \<open>Basic facts about the state operations\<close>

lemma save_state_mem [simp]:
  "training_jobs (save_state e s) = training_jobs s"
  "trained_models (save_state e s) = trained_models s"
  "active_jobs (save_state e s) = active_jobs s"
  "model_files (save_state e s) = model_files s"
  by (simp_all add: save_state_def Let_def)

lemma upd_job_fields [simp]:
  "training_jobs (upd_job k f s) = AList.map_entry k f (training_jobs s)"
  "trained_models (upd_job k f s) = trained_models s"
  "active_jobs (upd_job k f s) = active_jobs s"
  "model_files (upd_job k f s) = model_files s"
  "jobs_file (upd_job k f s) = jobs_file s"
  "models_file (upd_job k f s) = models_file s"
  by (simp_all add: upd_job_def)

lemma map_fst_map_entry [simp]: "map fst (AList.map_entry k f xs) = map fst xs"
  by (induction xs) auto

lemma length_map_entry [simp]: "length (AList.map_entry k f xs) = length xs"
  by (induction xs) auto

lemma update_fresh: "k \<notin> fst ` set xs \<Longrightarrow> AList.update k v xs = xs @ [(k, v)]"
  by (induction xs) auto

lemma map_entry_nth:
  "distinct (map fst xs) \<Longrightarrow> i < length xs \<Longrightarrow> fst (xs ! i) = k \<Longrightarrow>
   AList.map_entry k f xs = xs[i := (k, f (snd (xs ! i)))]"
proof (induction xs arbitrary: i)
  case Nil
  then show ?case by simp
next
  case (Cons x xs)
  show ?case
  proof (cases i)
    case 0
    with Cons.prems show ?thesis by (cases x) auto
  next
    case (Suc j)
    with Cons.prems have "fst x \<noteq> k" by (auto simp: image_iff)
    with Cons Suc show ?thesis by (cases x) auto
  qed
qed

lemma map_of_nth:
  "distinct (map fst xs) \<Longrightarrow> i < length xs \<Longrightarrow> map_of xs (fst (xs ! i)) = Some (snd (xs ! i))"
  by (metis map_of_eq_Some_iff nth_mem prod.collapse)

lemma map_of_index:
  "map_of xs k = Some v \<Longrightarrow> \<exists>i < length xs. xs ! i = (k, v)"
  by (metis in_set_conv_nth map_of_SomeD)


lemma map_of_map_entry_eq:
  "map_of (AList.map_entry k f xs) k' =
     (if k' = k then map_option f (map_of xs k) else map_of xs k')"
  by (induction xs) auto

lemma map_entry_id: "AList.map_entry k (\<lambda>x. x) xs = xs"
  by (induction xs) auto

lemma map_entry_absent: "map_of xs k = None \<Longrightarrow> AList.map_entry k f xs = xs"
  by (induction xs) (auto split: if_splits)

lemma list_all_map_entry:
  "list_all P xs \<Longrightarrow> (\<And>v. P (k, v) \<Longrightarrow> P (k, f v)) \<Longrightarrow> list_all P (AList.map_entry k f xs)"
  by (induction xs) auto

lemma filter_update_count:
  assumes "i < length xs"
  shows "int (length (filter P (xs[i := y]))) =
         int (length (filter P xs)) - (if P (xs ! i) then 1 else 0) + (if P y then 1 else 0)"
proof -
  have 1: "xs[i := y] = take i xs @ y # drop (Suc i) xs"
    using assms by (rule upd_conv_take_nth_drop)
  have 2: "filter P xs = filter P (take i xs @ xs ! i # drop (Suc i) xs)"
    using assms by (simp add: id_take_nth_drop [symmetric])
  show ?thesis unfolding 1 2 by simp
qed

lemma named_update:
  "list_all (\<lambda>km. name (snd km) = fst km) xs \<Longrightarrow> name m = n \<Longrightarrow>
   list_all (\<lambda>km. name (snd km) = fst km) (AList.update n m xs)"
  by (induction xs) auto

lemma list_all_delete:
  "list_all P xs \<Longrightarrow> list_all P (AList.delete k xs)"
  by (induction xs) auto

section \<open>Job identifiers\<close>

lemma of_char_digit: "d < 10 \<Longrightarrow> (of_char (digit d) :: nat) = 48 + d"
  by (simp add: digit_def)

lemma is_digit_digit: "d < 10 \<Longrightarrow> is_digit (digit d)"
  by (simp add: is_digit_def of_char_digit)

lemma str_nat_digits: "list_all is_digit (str_nat n)"
proof (induction n rule: str_nat.induct)
  case (1 n)
  show ?case
  proof (cases "n < 10")
    case True
    then show ?thesis by (subst str_nat.simps) (simp add: is_digit_digit)
  next
    case False
    with 1 show ?thesis by (subst str_nat.simps) (simp add: is_digit_digit)
  qed
qed

lemma digits_val_snoc: "digits_val (ds @ [c]) = 10 * digits_val ds + (of_char c - 48)"
  by (simp add: digits_val_def)

lemma digits_val_str_nat: "digits_val (str_nat n) = n"
proof (induction n rule: str_nat.induct)
  case (1 n)
  show ?case
  proof (cases "n < 10")
    case True
    then show ?thesis by (subst str_nat.simps) (simp add: digits_val_def of_char_digit)
  next
    case False
    with 1 show ?thesis
      by (subst str_nat.simps) (simp add: digits_val_snoc of_char_digit)
  qed
qed

lemma takeWhile_all: "list_all P xs \<Longrightarrow> \<not> P y \<Longrightarrow> takeWhile P (xs @ y # ys) = xs"
  by (induction xs) auto

lemma id_index_new: "id_index (pre @ ''_'' @ str_nat n) = n"
proof -
  have "list_all is_digit (rev (str_nat n))"
    using str_nat_digits [of n] by (simp add: list_all_iff)
  moreover have "\<not> is_digit CHR ''_''" by (simp add: is_digit_def)
  ultimately have "takeWhile is_digit (rev (str_nat n) @ CHR ''_'' # rev pre) = rev (str_nat n)"
    by (rule takeWhile_all)
  then show ?thesis by (simp add: id_index_def digits_val_str_nat)
qed

lemma id_index_new_job_id: "id_index (new_job_id e s) = length (training_jobs s)"
  using id_index_new [of "''job_'' @ str_nat (unix_time e)" "length (training_jobs s)"]
  by (simp add: new_job_id_def)

lemma idx_distinct: "idx_ok ks \<Longrightarrow> distinct ks"
proof -
  assume "idx_ok ks"
  then have "distinct (map id_index ks)" by (simp add: idx_ok_def)
  then show ?thesis using distinct_map by blast
qed

lemma idx_bound: "idx_ok ks \<Longrightarrow> k \<in> set ks \<Longrightarrow> id_index k < length ks"
proof -
  assume a: "idx_ok ks" and k: "k \<in> set ks"
  from a have e: "map id_index ks = [0..<length ks]" by (simp add: idx_ok_def)
  have "id_index k \<in> set (map id_index ks)" using k by simp
  then have "id_index k \<in> set [0..<length ks]" by (simp only: e)
  then show ?thesis by simp
qed

lemma idx_fresh:
  assumes "idx_ok (map fst (training_jobs s))"
  shows "new_job_id e s \<notin> fst ` set (training_jobs s)"
proof
  assume "new_job_id e s \<in> fst ` set (training_jobs s)"
  then have "new_job_id e s \<in> set (map fst (training_jobs s))" by simp
  from idx_bound [OF assms this] show False by (simp add: id_index_new_job_id)
qed

lemma idx_ok_snoc: "idx_ok ks \<Longrightarrow> id_index k = length ks \<Longrightarrow> idx_ok (ks @ [k])"
  by (simp add: idx_ok_def)

section \<open>Loading the catalogs\<close>

lemma load_fold_acc:
  "distinct (map fst acc @ map f xs) \<Longrightarrow>
   foldl (\<lambda>d x. AList.update (f x) x d) acc xs = acc @ map (\<lambda>x. (f x, x)) xs"
proof (induction xs arbitrary: acc)
  case Nil
  then show ?case by simp
next
  case (Cons x xs)
  have fresh: "f x \<notin> fst ` set acc" using Cons.prems by auto
  have "distinct (map fst (acc @ [(f x, x)]) @ map f xs)" using Cons.prems by auto
  from Cons.IH [OF this] show ?case by (simp add: update_fresh [OF fresh])
qed

lemma load_fold:
  "distinct (map f xs) \<Longrightarrow>
   foldl (\<lambda>d x. AList.update (f x) x d) [] xs = map (\<lambda>x. (f x, x)) xs"
  using load_fold_acc [of "[]" f xs] by simp

lemma load_fold_distinct:
  "distinct (map fst acc) \<Longrightarrow> distinct (map fst (foldl (\<lambda>d x. AList.update (f x) x d) acc xs))"
  by (induction xs arbitrary: acc) (simp_all add: distinct_update)

lemma load_fold_named:
  "list_all (\<lambda>km. name (snd km) = fst km) acc \<Longrightarrow>
   list_all (\<lambda>km. name (snd km) = fst km) (foldl (\<lambda>d m. AList.update (name m) m d) acc xs)"
  by (induction xs arbitrary: acc) (simp_all add: named_update)

lemma keyed_values:
  "list_all (\<lambda>kv. f (snd kv) = fst kv) xs \<Longrightarrow> map (\<lambda>x. (f x, x)) (map snd xs) = xs"
  by (induction xs) auto

lemma load_state_fields [simp]:
  "active_jobs (load_state s) = 0"
  "jobs_file (load_state s) = jobs_file s"
  "models_file (load_state s) = models_file s"
  "model_files (load_state s) = model_files s"
  by (simp_all add: load_state_def)

lemma load_state_jobs:
  assumes "file_ok (jobs_file s)"
  shows "training_jobs (load_state s) =
           (case jobs_file s of None \<Rightarrow> [] | Some js \<Rightarrow> map (\<lambda>j. (id_job j, j)) js)"
proof (cases "jobs_file s")
  case None
  then show ?thesis by (simp add: load_state_def)
next
  case (Some js)
  with assms have "distinct (map id_job js)" by (simp add: file_ok_def idx_distinct)
  from load_fold [OF this] Some show ?thesis by (simp add: load_state_def)
qed

lemma load_state_lookup:
  "file_ok (jobs_file s) \<Longrightarrow> map_of (training_jobs (load_state s)) k = disk_job s k"
  by (simp add: load_state_jobs disk_job_def split: option.splits)

section \<open>Steps of the simulated worker\<close>

lemma loop_next_ok: "pc_ok (loop_next n epoch step) st = (st = Training \<or> st = Cancelled)"
  by (simp add: loop_next_def)

lemma loop_next_not_exited [simp]: "loop_next n epoch step \<noteq> Exited"
  by (simp add: loop_next_def)

lemma pc_ok_cancel: "pc_ok p st \<Longrightarrow> st = Pending \<or> st = Training \<Longrightarrow> pc_ok p Cancelled"
  by (cases p) (auto simp: terminal_def)

lemma worker_job_at:
  "worker_job e AtStart = begin_job"
  "worker_job e (AtCheck epoch step) = (\<lambda>j. j)"
  "worker_job e (AtSleep epoch step) = progress_job e epoch step"
  "worker_job e AtComplete = mark_job"
  "worker_job e AtStamp = stamp_job e"
  "worker_job e AtWrite = (case model_write_error e of None \<Rightarrow> (\<lambda>j. j) | Some msg \<Rightarrow> fail_job msg)"
  "worker_job e Exited = (\<lambda>j. j)"
  by (auto simp: fun_eq_iff worker_job_def split: option.splits)

lemma worker_finally_fields [simp]:
  "training_jobs (worker_finally e s) = training_jobs s"
  "trained_models (worker_finally e s) = trained_models s"
  "active_jobs (worker_finally e s) = active_jobs s - 1"
  "model_files (worker_finally e s) = model_files s"
  by (simp_all add: worker_finally_def)

lemma worker_register_fields [simp]:
  "training_jobs (worker_register cfg e k j s) = AList.map_entry k (stamp_job e) (training_jobs s)"
  "trained_models (worker_register cfg e k j s) =
     AList.update (model_name j) (new_model_info cfg e k j) (trained_models s)"
  "active_jobs (worker_register cfg e k j s) = active_jobs s"
  "model_files (worker_register cfg e k j s) = model_files s"
  "jobs_file (worker_register cfg e k j s) = jobs_file s"
  "models_file (worker_register cfg e k j s) = models_file s"
  by (simp_all add: worker_register_def Let_def)

lemma worker_write_fields [simp]:
  "training_jobs (worker_write cfg e k j s) =
     AList.map_entry k (worker_job e AtWrite) (training_jobs s)"
  "trained_models (worker_write cfg e k j s) = trained_models s"
  "active_jobs (worker_write cfg e k j s) = active_jobs s"
  "jobs_file (worker_write cfg e k j s) = jobs_file s"
  "models_file (worker_write cfg e k j s) = models_file s"
  by (auto simp: worker_write_def worker_job_at map_entry_id split: option.splits)

lemma worker_step_exited [simp]: "worker_step cfg e k Exited s = (Exited, s)"
  by (simp add: worker_step_def split: option.splits)

lemma worker_step_jobs:
  "training_jobs (snd (worker_step cfg e k p s)) =
     AList.map_entry k (worker_job e p) (training_jobs s)"
proof (cases "map_of (training_jobs s) k")
  case None
  then show ?thesis by (simp add: worker_step_def map_entry_absent)
next
  case (Some j)
  then show ?thesis
    by (cases p) (simp_all add: worker_step_def worker_job_at map_entry_id cong: if_cong)
qed

lemma worker_job_keeps [simp]:
  "id_job (worker_job e p j) = id_job j"
  "model_name (worker_job e p j) = model_name j"
  "epochs (worker_job e p j) = epochs j"
  by (cases p; simp add: worker_job_def begin_job_def progress_job_def Let_def mark_job_def
        stamp_job_def fail_job_def split: option.splits)+

lemma worker_job_status:
  "status (worker_job e p j) =
     (case p of
        AtStart \<Rightarrow> Training
      | AtComplete \<Rightarrow> Completed
      | AtWrite \<Rightarrow> (case model_write_error e of None \<Rightarrow> status j | Some msg \<Rightarrow> Failed)
      | _ \<Rightarrow> status j)"
  by (cases p; simp add: worker_job_def begin_job_def progress_job_def Let_def mark_job_def
        stamp_job_def fail_job_def split: option.splits)

lemma worker_step_pc:
  assumes "map_of (training_jobs s) k = Some j" and "pc_ok p (status j)"
  shows "pc_ok (fst (worker_step cfg e k p s)) (status (worker_job e p j))"
  using assms
  by (cases p) (auto simp: worker_step_def worker_job_status loop_next_ok terminal_def
                     split: option.splits)

lemma worker_step_active:
  assumes "map_of (training_jobs s) k = Some j"
  shows "active_jobs (snd (worker_step cfg e k p s)) =
           active_jobs s - (if p \<noteq> Exited \<and> fst (worker_step cfg e k p s) = Exited then 1 else 0)"
  using assms by (cases p) (auto simp: worker_step_def)

lemma worker_step_models:
  assumes "map_of (training_jobs s) k = Some j"
  shows "trained_models (snd (worker_step cfg e k p s)) =
           (if p = AtStamp
            then AList.update (model_name j) (new_model_info cfg e k j) (trained_models s)
            else trained_models s)"
  using assms by (cases p) (auto simp: worker_step_def)

lemma save_state_file:
  "jobs_file (save_state e s) = jobs_file s \<or>
   jobs_file (save_state e s) = Some (map snd (training_jobs s))"
  by (simp add: save_state_def Let_def)

lemma worker_step_file:
  "jobs_file (snd (worker_step cfg e k p s)) = jobs_file s \<or>
   jobs_file (snd (worker_step cfg e k p s)) =
     Some (map snd (training_jobs (snd (worker_step cfg e k p s))))"
proof (cases "map_of (training_jobs s) k")
  case None
  then show ?thesis by (simp add: worker_step_def)
next
  case (Some j)
  show ?thesis
  proof (cases p)
    case (AtCheck epoch step)
    with Some save_state_file [of e "s\<lparr>active_jobs := active_jobs s - 1\<rparr>"] show ?thesis
      by (auto simp: worker_step_def worker_finally_def)
  next
    case AtWrite
    with Some save_state_file [of e "(worker_write cfg e k j s)\<lparr>active_jobs := active_jobs (worker_write cfg e k j s) - 1\<rparr>"]
    show ?thesis by (auto simp: worker_step_def worker_finally_def)
  qed (use Some in \<open>simp_all add: worker_step_def\<close>)
qed

section \<open>The invariant of the transition system\<close>

lemma new_job_fields [simp]:
  "id_job (new_job e k mname bmodel dpath lr bsize eps mlen meta) = k"
  "status (new_job e k mname bmodel dpath lr bsize eps mlen meta) = Pending"
  "end_time (new_job e k mname bmodel dpath lr bsize eps mlen meta) = None"
  "model_name (new_job e k mname bmodel dpath lr bsize eps mlen meta) = mname"
  "epochs (new_job e k mname bmodel dpath lr bsize eps mlen meta) = eps"
  "progress (new_job e k mname bmodel dpath lr bsize eps mlen meta) = 0"
  "error_message (new_job e k mname bmodel dpath lr bsize eps mlen meta) = None"
  by (simp_all add: new_job_def)

lemma req_job_fields [simp]:
  "id_job (req_job e s r meta) = new_job_id e s"
  "status (req_job e s r meta) = Pending"
  "end_time (req_job e s r meta) = None"
  "model_name (req_job e s r meta) = r_model_name r"
  "epochs (req_job e s r meta) = r_epochs r"
  "progress (req_job e s r meta) = 0"
  "error_message (req_job e s r meta) = None"
  by (simp_all add: req_job_def)

lemma submit_reject:
  "fst (submit cfg e s r) = Inl err \<Longrightarrow> snd (submit cfg e s r) = s"
  by (auto simp: submit_def start_training_def start_training_admit_def Let_def
           split: if_splits sum.splits)

lemma submit_accept:
  assumes "fst (submit cfg e s r) = Inr k"
  shows "k = new_job_id e s \<and> strip (r_model_name r) \<noteq> []
     \<and> r_model_name r \<notin> fst ` set (trained_models s)
     \<and> active_jobs s < max_concurrent_jobs cfg
     \<and> (\<exists>meta. validate_dataset cfg e (r_dataset_path r) = Inr meta \<and>
          snd (submit cfg e s r) =
            save_state e (s\<lparr>training_jobs := AList.update k (req_job e s r meta) (training_jobs s),
                            active_jobs := active_jobs s + 1\<rparr>))"
  using assms
  by (auto simp: submit_def start_training_def start_training_admit_def Let_def req_job_def
           split: if_splits sum.splits)

lemma cancel_result:
  "snd (cancel_training e s k) = s \<or>
   (\<exists>j. map_of (training_jobs s) k = Some j \<and> (status j = Pending \<or> status j = Training)
        \<and> fst (cancel_training e s k) = Inr k
        \<and> snd (cancel_training e s k) = save_state e (upd_job k (cancel_job e) s))"
  by (auto simp: cancel_training_def split: option.splits)

lemma cancel_job_fields [simp]:
  "id_job (cancel_job e j) = id_job j"
  "status (cancel_job e j) = Cancelled"
  "model_name (cancel_job e j) = model_name j"
  "end_time (cancel_job e j) = end_time j"
  "logs (cancel_job e j) = logs j @ [''Training cancelled at '' @ now_fmt e]"
  by (simp_all add: cancel_job_def)

lemma delete_result:
  "snd (delete_model e s m) = s \<or>
   (\<exists>path. snd (delete_model e s m) =
      save_state e (s\<lparr>model_files := AList.delete path (model_files s),
                      trained_models := AList.delete m (trained_models s)\<rparr>))"
  by (auto simp: delete_model_def split: option.splits)

lemma sys_invD:
  assumes "sys_inv sy"
  shows "idx_ok (map fst (training_jobs (api sy)))"
    and "list_all job_ok (training_jobs (api sy))"
    and "distinct (map fst (workers sy))"
    and "list_all (worker_ok (api sy)) (workers sy)"
    and "active_jobs (api sy) = int (live_workers sy)"
    and "distinct (map fst (trained_models (api sy)))"
    and "list_all (\<lambda>km. name (snd km) = fst km) (trained_models (api sy))"
    and "file_ok (jobs_file (api sy))"
  using assms by (simp_all add: sys_inv_def)

lemma sys_inv_keys: "sys_inv sy \<Longrightarrow> distinct (map fst (training_jobs (api sy)))"
  by (simp add: sys_invD(1) idx_distinct)

lemma worker_ok_cong: "training_jobs s' = training_jobs s \<Longrightarrow> worker_ok s' kp = worker_ok s kp"
  by (simp add: worker_ok_def)

lemma worker_ok_append:
  "worker_ok s kp \<Longrightarrow> training_jobs s' = training_jobs s @ extra \<Longrightarrow> worker_ok s' kp"
  by (auto simp: worker_ok_def map_add_def split: option.splits)

lemma worker_ok_upd:
  assumes "worker_ok s kp" and "training_jobs s' = AList.map_entry k f (training_jobs s)"
    and "\<And>j. fst kp = k \<Longrightarrow> map_of (training_jobs s) k = Some j \<Longrightarrow> pc_ok (snd kp) (status j)
           \<Longrightarrow> pc_ok (snd kp) (status (f j))"
  shows "worker_ok s' kp"
  using assms by (auto simp: worker_ok_def map_of_map_entry_eq split: option.splits)

lemma worker_ok_keys:
  assumes "list_all (worker_ok s) ws" and "kp \<in> set ws"
  shows "fst kp \<in> fst ` set (training_jobs s)"
proof -
  from assms have "worker_ok s kp" by (simp add: list_all_iff)
  then obtain j where "map_of (training_jobs s) (fst kp) = Some j"
    by (auto simp: worker_ok_def split: option.splits)
  then have "(fst kp, j) \<in> set (training_jobs s)" by (rule map_of_SomeD)
  then show ?thesis by (rule image_eqI [rotated]) simp
qed

lemma job_ok_ids: "list_all job_ok tj \<Longrightarrow> map id_job (map snd tj) = map fst tj"
  by (induction tj) (auto simp: job_ok_def)

lemma job_ok_status: "list_all job_ok tj \<Longrightarrow> list_all (\<lambda>j. status j \<noteq> Initializing) (map snd tj)"
  by (induction tj) (auto simp: job_ok_def)

lemma file_ok_step:
  assumes "file_ok (jobs_file s)"
    and "jobs_file s' = jobs_file s \<or> jobs_file s' = Some (map snd (training_jobs s'))"
    and "idx_ok (map fst (training_jobs s'))" and "list_all job_ok (training_jobs s')"
  shows "file_ok (jobs_file s')"
proof -
  have 1: "map id_job (map snd (training_jobs s')) = map fst (training_jobs s')"
    using assms(4) by (rule job_ok_ids)
  have 2: "list_all (\<lambda>j. status j \<noteq> Initializing) (map snd (training_jobs s'))"
    using assms(4) by (rule job_ok_status)
  have "file_ok (Some (map snd (training_jobs s')))"
    unfolding file_ok_def option.case 1 using assms(3) 2 by (rule conjI)
  with assms(1,2) show ?thesis by auto
qed

lemma live_workers_append:
  "live_workers \<lparr>api = s, workers = ws @ [(k, p)]\<rparr> =
   live_workers \<lparr>api = s0, workers = ws\<rparr> + (if p = Exited then 0 else 1)"
  by (simp add: live_workers_def)

lemma live_workers_api [simp]: "live_workers (sy\<lparr>api := s\<rparr>) = live_workers sy"
  by (simp add: live_workers_def)

lemma sys_inv_submit:
  assumes inv: "sys_inv sy"
  shows "sys_inv (sys_step cfg sy (Submit e r))"
proof (cases "fst (submit cfg e (api sy) r)")
  case (Inl err)
  then have "snd (submit cfg e (api sy) r) = api sy" by (rule submit_reject)
  with Inl have "sys_step cfg sy (Submit e r) = sy"
    by (cases "submit cfg e (api sy) r") simp
  with inv show ?thesis by simp
next
  case (Inr k)
  let ?s = "api sy" and ?ws = "workers sy"
  from submit_accept [OF Inr] obtain meta where
    k: "k = new_job_id e ?s" and
    s': "snd (submit cfg e ?s r) =
           save_state e (?s\<lparr>training_jobs := AList.update k (req_job e ?s r meta) (training_jobs ?s),
                            active_jobs := active_jobs ?s + 1\<rparr>)"
    by blast
  let ?j = "req_job e ?s r meta"
  let ?s' = "snd (submit cfg e ?s r)"
  have fresh: "k \<notin> fst ` set (training_jobs ?s)"
    unfolding k using sys_invD(1) [OF inv] by (rule idx_fresh)
  have tj: "training_jobs ?s' = training_jobs ?s @ [(k, ?j)]"
    by (simp add: s' update_fresh [OF fresh])
  have step: "sys_step cfg sy (Submit e r) = \<lparr>api = ?s', workers = ?ws @ [(k, AtStart)]\<rparr>"
    using Inr by (cases "submit cfg e ?s r") simp
  have i1: "idx_ok (map fst (training_jobs ?s'))"
    unfolding tj using sys_invD(1) [OF inv] by (simp add: idx_ok_snoc k id_index_new_job_id)
  have i2: "list_all job_ok (training_jobs ?s')"
    unfolding tj using sys_invD(2) [OF inv] by (simp add: job_ok_def k)
  have i3: "distinct (map fst (?ws @ [(k, AtStart)]))"
    using sys_invD(3) [OF inv] worker_ok_keys [OF sys_invD(4) [OF inv]] fresh by auto
  have "\<And>kp. kp \<in> set ?ws \<Longrightarrow> worker_ok ?s' kp"
    using sys_invD(4) [OF inv] worker_ok_append [OF _ tj] by (auto simp: list_all_iff)
  moreover have "map_of (training_jobs ?s) k = None"
    using fresh by (simp add: map_of_eq_None_iff)
  then have "worker_ok ?s' (k, AtStart)"
    by (simp add: worker_ok_def tj map_add_def)
  ultimately have i4: "list_all (worker_ok ?s') (?ws @ [(k, AtStart)])"
    by (simp add: list_all_iff)
  have i5: "active_jobs ?s' = int (live_workers \<lparr>api = ?s', workers = ?ws @ [(k, AtStart)]\<rparr>)"
    using sys_invD(5) [OF inv] by (simp add: s' live_workers_def)
  have i67: "trained_models ?s' = trained_models ?s" by (simp add: s')
  have "jobs_file ?s' = jobs_file ?s \<or> jobs_file ?s' = Some (map snd (training_jobs ?s'))"
    unfolding tj unfolding s'
    using save_state_file [of e "?s\<lparr>training_jobs := AList.update k ?j (training_jobs ?s),
                            active_jobs := active_jobs ?s + 1\<rparr>"]
    by (simp add: update_fresh [OF fresh] save_state_def Let_def)
  with sys_invD(8) [OF inv] have i8: "file_ok (jobs_file ?s')"
    using i1 i2 by (rule file_ok_step)
  show ?thesis
    unfolding step sys_inv_def
    using i1 i2 i3 i4 i5 i67 i8 sys_invD(6,7) [OF inv] by simp
qed

lemma sys_inv_cancel:
  assumes inv: "sys_inv sy"
  shows "sys_inv (sys_step cfg sy (Cancel e k))"
proof -
  let ?s = "api sy" and ?ws = "workers sy"
  let ?s' = "snd (cancel_training e ?s k)"
  from cancel_result [of e ?s k] consider
    (same) "?s' = ?s" |
    (upd) j where "map_of (training_jobs ?s) k = Some j" "status j = Pending \<or> status j = Training"
      "?s' = save_state e (upd_job k (cancel_job e) ?s)"
    by blast
  then show ?thesis
  proof cases
    case same
    then have "sys_step cfg sy (Cancel e k) = sy" by simp
    with inv show ?thesis by simp
  next
    case upd
    have tj: "training_jobs ?s' = AList.map_entry k (cancel_job e) (training_jobs ?s)"
      by (simp add: upd(3))
    have i1: "idx_ok (map fst (training_jobs ?s'))"
      unfolding tj using sys_invD(1) [OF inv] by simp
    have i2: "list_all job_ok (training_jobs ?s')"
      unfolding tj using sys_invD(2) [OF inv]
      by (rule list_all_map_entry) (simp add: job_ok_def)
    have "\<And>kp. kp \<in> set ?ws \<Longrightarrow> worker_ok ?s' kp"
    proof -
      fix kp assume "kp \<in> set ?ws"
      with sys_invD(4) [OF inv] have ok: "worker_ok ?s kp" by (simp add: list_all_iff)
      show "worker_ok ?s' kp"
        using ok tj
      proof (rule worker_ok_upd)
        fix j' assume "fst kp = k" "map_of (training_jobs ?s) k = Some j'" "pc_ok (snd kp) (status j')"
        with upd(1,2) show "pc_ok (snd kp) (status (cancel_job e j'))"
          by (auto intro: pc_ok_cancel)
      qed
    qed
    then have i4: "list_all (worker_ok ?s') ?ws" by (simp add: list_all_iff)
    have "jobs_file ?s' = jobs_file ?s \<or> jobs_file ?s' = Some (map snd (training_jobs ?s'))"
      unfolding upd(3) using save_state_file [of e "upd_job k (cancel_job e) ?s"] by simp
    with sys_invD(8) [OF inv] have i8: "file_ok (jobs_file ?s')"
      using i1 i2 by (rule file_ok_step)
    have rest: "active_jobs ?s' = active_jobs ?s" "trained_models ?s' = trained_models ?s"
      by (simp_all add: upd(3))
    show ?thesis
      unfolding sys_inv_def
      using i1 i2 i4 i8 rest sys_invD(3,5,6,7) [OF inv] by simp
  qed
qed

lemma sys_inv_delete:
  assumes inv: "sys_inv sy"
  shows "sys_inv (sys_step cfg sy (Delete e m))"
proof -
  let ?s = "api sy"
  let ?s' = "snd (delete_model e ?s m)"
  from delete_result [of e ?s m] consider
    (same) "?s' = ?s" |
    (upd) path where "?s' = save_state e (?s\<lparr>model_files := AList.delete path (model_files ?s),
                      trained_models := AList.delete m (trained_models ?s)\<rparr>)"
    by blast
  then show ?thesis
  proof cases
    case same
    then have "sys_step cfg sy (Delete e m) = sy" by simp
    with inv show ?thesis by simp
  next
    case upd
    have tj: "training_jobs ?s' = training_jobs ?s" by (simp add: upd)
    have "jobs_file ?s' = jobs_file ?s \<or> jobs_file ?s' = Some (map snd (training_jobs ?s'))"
      unfolding upd
      using save_state_file [of e "?s\<lparr>model_files := AList.delete path (model_files ?s),
                      trained_models := AList.delete m (trained_models ?s)\<rparr>"] by simp
    moreover have "idx_ok (map fst (training_jobs ?s'))" "list_all job_ok (training_jobs ?s')"
      using sys_invD(1,2) [OF inv] by (simp_all add: tj)
    ultimately have i8: "file_ok (jobs_file ?s')"
      using sys_invD(8) [OF inv] by (metis file_ok_step)
    have tm: "trained_models ?s' = AList.delete m (trained_models ?s)" by (simp add: upd)
    have act: "active_jobs ?s' = active_jobs ?s" by (simp add: upd)
    have w: "list_all (worker_ok ?s') (workers sy)"
      using sys_invD(4) [OF inv] worker_ok_cong [OF tj] by (simp add: list_all_iff)
    show ?thesis
      unfolding sys_inv_def
      using i8 tj tm act w sys_invD [OF inv]
      by (simp add: distinct_delete list_all_delete)
  qed
qed

lemma sys_inv_restart:
  assumes inv: "sys_inv sy"
  shows "sys_inv (sys_step cfg sy Restart)"
proof -
  let ?s = "api sy"
  have f: "file_ok (jobs_file ?s)" by (rule sys_invD(8) [OF inv])
  have tj: "training_jobs (load_state ?s) =
              (case jobs_file ?s of None \<Rightarrow> [] | Some js \<Rightarrow> map (\<lambda>j. (id_job j, j)) js)"
    by (rule load_state_jobs [OF f])
  have i1: "idx_ok (map fst (training_jobs (load_state ?s)))"
    unfolding tj using f by (auto simp: file_ok_def idx_ok_def comp_def split: option.splits)
  have i2: "list_all job_ok (training_jobs (load_state ?s))"
    unfolding tj using f by (auto simp: file_ok_def job_ok_def list_all_iff split: option.splits)
  have i6: "distinct (map fst (trained_models (load_state ?s)))"
    by (auto simp: load_state_def load_fold_distinct split: option.splits)
  have i7: "list_all (\<lambda>km. name (snd km) = fst km) (trained_models (load_state ?s))"
    by (auto simp: load_state_def load_fold_named split: option.splits)
  show ?thesis
    unfolding sys_inv_def using i1 i2 i6 i7 f by (simp add: live_workers_def)
qed

lemma sys_inv_work:
  assumes inv: "sys_inv sy"
  shows "sys_inv (sys_step cfg sy (Work e i))"
proof (cases "i < length (workers sy)")
  case False
  with inv show ?thesis by simp
next
  case True
  let ?s = "api sy" and ?ws = "workers sy"
  obtain k p where kp: "?ws ! i = (k, p)" by (cases "?ws ! i")
  let ?p' = "fst (worker_step cfg e k p ?s)" and ?s' = "snd (worker_step cfg e k p ?s)"
  have step: "sys_step cfg sy (Work e i) = \<lparr>api = ?s', workers = ?ws[i := (k, ?p')]\<rparr>"
    using True kp by (simp add: case_prod_beta)
  have "worker_ok ?s (?ws ! i)" using sys_invD(4) [OF inv] True by (simp add: list_all_length)
  then obtain j where j: "map_of (training_jobs ?s) k = Some j" and ok: "pc_ok p (status j)"
    by (auto simp: worker_ok_def kp split: option.splits)
  have tj: "training_jobs ?s' = AList.map_entry k (worker_job e p) (training_jobs ?s)"
    by (rule worker_step_jobs)
  have i1: "idx_ok (map fst (training_jobs ?s'))"
    unfolding tj using sys_invD(1) [OF inv] by simp
  have st: "\<And>x. status x \<noteq> Initializing \<Longrightarrow> status (worker_job e p x) \<noteq> Initializing"
    by (cases p) (auto simp: worker_job_status split: option.splits)
  have i2: "list_all job_ok (training_jobs ?s')"
    unfolding tj using sys_invD(2) [OF inv]
    by (rule list_all_map_entry) (simp add: job_ok_def st)
  have i3: "distinct (map fst (?ws[i := (k, ?p')]))"
    using sys_invD(3) [OF inv] True kp
    by (simp add: map_update) (metis fst_conv list_update_id map_update)
  have i4: "list_all (worker_ok ?s') (?ws[i := (k, ?p')])"
    unfolding list_all_length
  proof (intro allI impI)
    fix n assume n: "n < length (?ws[i := (k, ?p')])"
    show "worker_ok ?s' (?ws[i := (k, ?p')] ! n)"
    proof (cases "n = i")
      case True
      with n have "?ws[i := (k, ?p')] ! n = (k, ?p')" by simp
      moreover have "worker_ok ?s' (k, ?p')"
        using worker_step_pc [OF j ok, of cfg e] j
        by (simp add: worker_ok_def tj map_of_map_entry_eq)
      ultimately show ?thesis by simp
    next
      case False
      with n have eq: "?ws[i := (k, ?p')] ! n = ?ws ! n" by simp
      from n have n': "n < length ?ws" by simp
      have ne: "fst (?ws ! n) \<noteq> k"
        using nth_eq_iff_index_eq [OF sys_invD(3) [OF inv], of n i] False n' True kp by simp
      have "worker_ok ?s (?ws ! n)" using sys_invD(4) [OF inv] n' by (simp add: list_all_length)
      then have "worker_ok ?s' (?ws ! n)"
        using tj by (rule worker_ok_upd) (use ne in simp)
      with eq show ?thesis by simp
    qed
  qed
  have "int (live_workers \<lparr>api = ?s', workers = ?ws[i := (k, ?p')]\<rparr>) =
        int (live_workers sy) - (if p \<noteq> Exited then 1 else 0) + (if ?p' \<noteq> Exited then 1 else 0)"
    using filter_update_count [OF True, of "\<lambda>w. snd w \<noteq> Exited" "(k, ?p')"] kp
    by (simp add: live_workers_def)
  moreover have "p = Exited \<Longrightarrow> ?p' = Exited" by simp
  ultimately have i5: "active_jobs ?s' = int (live_workers \<lparr>api = ?s', workers = ?ws[i := (k, ?p')]\<rparr>)"
    using worker_step_active [OF j, of cfg e p] sys_invD(5) [OF inv] by auto
  have tm: "trained_models ?s' =
           (if p = AtStamp
            then AList.update (model_name j) (new_model_info cfg e k j) (trained_models ?s)
            else trained_models ?s)"
    by (rule worker_step_models [OF j])
  have i6: "distinct (map fst (trained_models ?s'))"
    unfolding tm using sys_invD(6) [OF inv] by (simp add: distinct_update)
  have i7: "list_all (\<lambda>km. name (snd km) = fst km) (trained_models ?s')"
    unfolding tm using sys_invD(7) [OF inv] by (simp add: named_update new_model_info_def)
  have i8: "file_ok (jobs_file ?s')"
    using sys_invD(8) [OF inv] worker_step_file i1 i2 by (rule file_ok_step)
  show ?thesis
    unfolding step sys_inv_def using i1 i2 i3 i4 i5 i6 i7 i8 by simp
qed

lemma sys_inv_step: "sys_inv sy \<Longrightarrow> sys_inv (sys_step cfg sy ev)"
  by (cases ev) (simp_all only: sys_inv_submit sys_inv_cancel sys_inv_delete sys_inv_work
                   sys_inv_restart)

lemma sys_inv_init: "sys_inv init_system"
  by (simp add: sys_inv_def init_system_def init_state_def live_workers_def idx_ok_def file_ok_def)

lemma sys_inv_foldl: "sys_inv sy \<Longrightarrow> sys_inv (foldl (sys_step cfg) sy evs)"
  by (induction evs arbitrary: sy) (simp_all add: sys_inv_step)

lemma sys_inv_run: "sys_inv (run cfg evs)"
  unfolding run_def using sys_inv_init by (rule sys_inv_foldl)

lemma run_append: "run cfg (evs @ evs') = foldl (sys_step cfg) (run cfg evs) evs'"
  by (simp add: run_def)

lemma run_snoc: "run cfg (evs @ [ev]) = sys_step cfg (run cfg evs) ev"
  by (simp add: run_def)

section \<open>What one step does to one job\<close>

lemma job_of_api [simp]: "job_of \<lparr>api = s, workers = ws\<rparr> k = map_of (training_jobs s) k"
  by (simp add: job_of_def)

lemma worker_of_lookup:
  assumes "distinct (map fst (workers sy))" and "i < length (workers sy)"
    and "workers sy ! i = (k, p)"
  shows "worker_of sy k = Some p"
proof -
  have "(k, p) \<in> set (workers sy)" using assms(2,3) by (metis nth_mem)
  with assms(1) show ?thesis by (simp add: worker_of_def)
qed

lemma worker_of_ok:
  assumes "sys_inv sy" and "worker_of sy k = Some p" and "job_of sy k = Some j"
  shows "pc_ok p (status j)"
proof -
  have "(k, p) \<in> set (workers sy)" using assms(2) by (simp add: worker_of_def map_of_SomeD)
  with sys_invD(4) [OF assms(1)] have "worker_ok (api sy) (k, p)" by (simp add: list_all_iff)
  with assms(3) show ?thesis by (simp add: worker_ok_def job_of_def)
qed

lemma sys_step_job:
  assumes inv: "sys_inv sy" and j: "job_of sy k = Some j" and nr: "ev \<noteq> Restart"
  shows "job_of (sys_step cfg sy ev) k = Some j
     \<or> (\<exists>e. ev = Cancel e k \<and> (status j = Pending \<or> status j = Training)
             \<and> job_of (sys_step cfg sy ev) k = Some (cancel_job e j))
     \<or> (\<exists>e i p. ev = Work e i \<and> i < length (workers sy) \<and> workers sy ! i = (k, p)
             \<and> p \<noteq> Exited \<and> pc_ok p (status j)
             \<and> job_of (sys_step cfg sy ev) k = Some (worker_job e p j))"
proof (cases ev)
  case (Submit e r)
  show ?thesis
  proof (cases "fst (submit cfg e (api sy) r)")
    case (Inl err)
    then have "snd (submit cfg e (api sy) r) = api sy" by (rule submit_reject)
    with Inl have "sys_step cfg sy (Submit e r) = sy"
      by (cases "submit cfg e (api sy) r") simp
    with j Submit show ?thesis by simp
  next
    case (Inr k')
    from submit_accept [OF Inr] obtain meta where
      k': "k' = new_job_id e (api sy)" and
      s': "snd (submit cfg e (api sy) r) =
             save_state e ((api sy)\<lparr>training_jobs := AList.update k' (req_job e (api sy) r meta) (training_jobs (api sy)),
                              active_jobs := active_jobs (api sy) + 1\<rparr>)"
      by blast
    have fresh: "k' \<notin> fst ` set (training_jobs (api sy))"
      unfolding k' using sys_invD(1) [OF inv] by (rule idx_fresh)
    have "job_of (sys_step cfg sy (Submit e r)) k = map_of (training_jobs (snd (submit cfg e (api sy) r))) k"
      using Inr by (cases "submit cfg e (api sy) r") (simp add: job_of_def)
    also have "\<dots> = Some j"
      using j by (simp add: s' update_fresh [OF fresh] map_add_def job_of_def)
    finally show ?thesis using Submit by simp
  qed
next
  case (Cancel e k')
  from cancel_result [of e "api sy" k'] consider
    (same) "snd (cancel_training e (api sy) k') = api sy" |
    (upd) j' where "map_of (training_jobs (api sy)) k' = Some j'"
      "status j' = Pending \<or> status j' = Training"
      "snd (cancel_training e (api sy) k') = save_state e (upd_job k' (cancel_job e) (api sy))"
    by blast
  then show ?thesis
  proof cases
    case same
    then have "sys_step cfg sy (Cancel e k') = sy" by simp
    with j Cancel show ?thesis by simp
  next
    case upd
    have "job_of (sys_step cfg sy (Cancel e k')) k =
            (if k = k' then Some (cancel_job e j) else Some j)"
      using j upd(1) by (auto simp: job_of_def upd(3) map_of_map_entry_eq)
    with upd(1,2) j Cancel show ?thesis by (auto simp: job_of_def)
  qed
next
  case (Delete e m)
  from delete_result [of e "api sy" m]
  have "training_jobs (snd (delete_model e (api sy) m)) = training_jobs (api sy)" by auto
  with j Delete show ?thesis by (simp add: job_of_def)
next
  case (Work e i)
  show ?thesis
  proof (cases "i < length (workers sy)")
    case False
    with j Work show ?thesis by simp
  next
    case True
    obtain k' p where kp: "workers sy ! i = (k', p)" by (cases "workers sy ! i")
    have jo: "job_of (sys_step cfg sy (Work e i)) k =
            map_of (AList.map_entry k' (worker_job e p) (training_jobs (api sy))) k"
      using True kp worker_step_jobs [of cfg e k' p "api sy"]
      by (simp add: job_of_def case_prod_beta)
    show ?thesis
    proof (cases "k' = k \<and> p \<noteq> Exited")
      case False
      then have "job_of (sys_step cfg sy (Work e i)) k = Some j"
        using j unfolding jo by (auto simp: map_of_map_entry_eq job_of_def worker_job_at)
      with Work show ?thesis by simp
    next
      case yes: True
      have "worker_of sy k = Some p"
        using sys_invD(3) [OF inv] True kp yes by (simp add: worker_of_lookup)
      then have "pc_ok p (status j)" using inv j by (simp add: worker_of_ok)
      moreover have "job_of (sys_step cfg sy (Work e i)) k = Some (worker_job e p j)"
        using j yes unfolding jo by (simp add: map_of_map_entry_eq job_of_def)
      ultimately show ?thesis using Work True kp yes by blast
    qed
  qed
next
  case Restart
  with nr show ?thesis by simp
qed

lemma cancel_edge:
  "status j = Pending \<or> status j = Training \<Longrightarrow> api_edge (status j) (status (cancel_job e j))"
  by (auto simp: api_edge_def)

lemma worker_edge:
  "pc_ok p (status j) \<Longrightarrow>
   status (worker_job e p j) = status j \<or> api_edge (status j) (status (worker_job e p j))
   \<or> overwrite_edge (status j) (status (worker_job e p j))"
  by (cases p) (auto simp: worker_job_status api_edge_def overwrite_edge_def split: option.splits)

lemma sys_step_status:
  assumes inv: "sys_inv sy" and j: "job_of sy k = Some j" and nr: "ev \<noteq> Restart"
  shows "\<exists>j'. job_of (sys_step cfg sy ev) k = Some j' \<and>
           (status j' = status j \<or> api_edge (status j) (status j')
            \<or> overwrite_edge (status j) (status j'))"
proof -
  from sys_step_job [OF inv j nr, of cfg] consider
    (same) "job_of (sys_step cfg sy ev) k = Some j" |
    (cancel) e where "status j = Pending \<or> status j = Training"
      "job_of (sys_step cfg sy ev) k = Some (cancel_job e j)" |
    (work) e p where "pc_ok p (status j)"
      "job_of (sys_step cfg sy ev) k = Some (worker_job e p j)"
    by blast
  then show ?thesis
  proof cases
    case same
    then show ?thesis by simp
  next
    case cancel
    with cancel_edge [OF cancel(1), of e] show ?thesis by simp
  next
    case work
    with worker_edge [OF work(1), of e] show ?thesis by simp
  qed
qed

lemma sys_step_frozen:
  assumes inv: "sys_inv sy" and j: "job_of sy k = Some j" and nr: "ev \<noteq> Restart"
    and t: "status j = Failed \<or>
            terminal (status j) \<and> (worker_of sy k = None \<or> worker_of sy k = Some Exited)"
  shows "job_of (sys_step cfg sy ev) k = Some j"
proof -
  from sys_step_job [OF inv j nr, of cfg] consider
    (same) "job_of (sys_step cfg sy ev) k = Some j" |
    (cancel) "status j = Pending \<or> status j = Training" |
    (work) i p where "i < length (workers sy)" "workers sy ! i = (k, p)" "p \<noteq> Exited"
      "pc_ok p (status j)"
    by blast
  then show ?thesis
  proof cases
    case same
    then show ?thesis .
  next
    case cancel
    with t show ?thesis by (auto simp: terminal_def)
  next
    case work
    have w: "worker_of sy k = Some p"
      using sys_invD(3) [OF inv] work(1,2) by (rule worker_of_lookup)
    from t work(3,4) w show ?thesis by (cases p) (auto simp: terminal_def)
  qed
qed

section \<open>Settled jobs\<close>

lemma disk_job_saved:
  assumes "idx_ok (map fst tj)" and "list_all job_ok tj"
  shows "map_of (map (\<lambda>j. (id_job j, j)) (map snd tj)) k = map_of tj k"
proof -
  have "list_all (\<lambda>kv. id_job (snd kv) = fst kv) tj"
    using assms(2) by (simp add: list_all_iff job_ok_def)
  then have "map (\<lambda>x. (id_job x, x)) (map snd tj) = tj" by (rule keyed_values)
  then show ?thesis by simp
qed

lemma disk_job_step:
  assumes "jobs_file s' = jobs_file s \<or> jobs_file s' = Some (map snd (training_jobs s'))"
    and "idx_ok (map fst (training_jobs s'))" and "list_all job_ok (training_jobs s')"
    and "disk_job s k = Some j" and "map_of (training_jobs s') k = Some j"
  shows "disk_job s' k = Some j"
  using assms(1)
proof
  assume "jobs_file s' = jobs_file s"
  with assms(4) show ?thesis by (simp add: disk_job_def)
next
  assume f: "jobs_file s' = Some (map snd (training_jobs s'))"
  show ?thesis
    unfolding disk_job_def f option.case disk_job_saved [OF assms(2,3)] by (rule assms(5))
qed

lemma sys_step_file:
  assumes "ev \<noteq> Restart"
  shows "jobs_file (api (sys_step cfg sy ev)) = jobs_file (api sy) \<or>
         jobs_file (api (sys_step cfg sy ev)) = Some (map snd (training_jobs (api (sys_step cfg sy ev))))"
proof (cases ev)
  case (Submit e r)
  show ?thesis
  proof (cases "fst (submit cfg e (api sy) r)")
    case (Inl err)
    then have "snd (submit cfg e (api sy) r) = api sy" by (rule submit_reject)
    with Inl Submit show ?thesis by (cases "submit cfg e (api sy) r") simp
  next
    case (Inr k')
    from submit_accept [OF Inr] obtain meta where
      s': "snd (submit cfg e (api sy) r) =
             save_state e ((api sy)\<lparr>training_jobs := AList.update k' (req_job e (api sy) r meta) (training_jobs (api sy)),
                              active_jobs := active_jobs (api sy) + 1\<rparr>)"
      by blast
    have "api (sys_step cfg sy ev) = snd (submit cfg e (api sy) r)"
      using Submit Inr by (cases "submit cfg e (api sy) r") simp
    then show ?thesis
      unfolding s'
      using save_state_file [of e "(api sy)\<lparr>training_jobs := AList.update k' (req_job e (api sy) r meta) (training_jobs (api sy)),
                              active_jobs := active_jobs (api sy) + 1\<rparr>"]
      by simp
  qed
next
  case (Cancel e k')
  from cancel_result [of e "api sy" k'] save_state_file [of e "upd_job k' (cancel_job e) (api sy)"]
  show ?thesis using Cancel by auto
next
  case (Delete e m)
  from delete_result [of e "api sy" m] obtain path where
    "snd (delete_model e (api sy) m) = api sy \<or>
     snd (delete_model e (api sy) m) =
       save_state e ((api sy)\<lparr>model_files := AList.delete path (model_files (api sy)),
                      trained_models := AList.delete m (trained_models (api sy))\<rparr>)"
    by blast
  with save_state_file [of e "(api sy)\<lparr>model_files := AList.delete path (model_files (api sy)),
                      trained_models := AList.delete m (trained_models (api sy))\<rparr>"]
  show ?thesis using Delete by auto
next
  case (Work e i)
  then show ?thesis
    using worker_step_file [of cfg e "fst (workers sy ! i)" "snd (workers sy ! i)" "api sy"]
    by (auto simp: case_prod_beta)
next
  case Restart
  with assms show ?thesis by simp
qed

lemma map_of_list_update:
  "i < length xs \<Longrightarrow> fst (xs ! i) = k' \<Longrightarrow> k \<noteq> k' \<Longrightarrow> map_of (xs[i := (k', v)]) k = map_of xs k"
proof (induction xs arbitrary: i)
  case Nil
  then show ?case by simp
next
  case (Cons x xs)
  then show ?case by (cases i) auto
qed

lemma worker_of_step:
  assumes inv: "sys_inv sy" and j: "job_of sy k = Some j" and nr: "ev \<noteq> Restart"
    and w: "worker_of sy k = None \<or> worker_of sy k = Some Exited"
  shows "worker_of (sys_step cfg sy ev) k = worker_of sy k"
proof (cases ev)
  case (Submit e r)
  show ?thesis
  proof (cases "fst (submit cfg e (api sy) r)")
    case (Inl err)
    with Submit show ?thesis by (cases "submit cfg e (api sy) r") (simp add: worker_of_def)
  next
    case (Inr k')
    from submit_accept [OF Inr] have k': "k' = new_job_id e (api sy)" by blast
    have fresh: "k' \<notin> fst ` set (training_jobs (api sy))"
      unfolding k' using sys_invD(1) [OF inv] by (rule idx_fresh)
    have "(k, j) \<in> set (training_jobs (api sy))" using j by (simp add: job_of_def map_of_SomeD)
    then have "k \<in> fst ` set (training_jobs (api sy))" by (rule image_eqI [rotated]) simp
    with fresh have ne: "k \<noteq> k'" by auto
    have "workers (sys_step cfg sy ev) = workers sy @ [(k', AtStart)]"
      using Submit Inr by (cases "submit cfg e (api sy) r") simp
    with ne show ?thesis by (auto simp: worker_of_def map_add_def split: option.splits)
  qed
next
  case (Cancel e k')
  then show ?thesis by (simp add: worker_of_def)
next
  case (Delete e m)
  then show ?thesis by (simp add: worker_of_def)
next
  case (Work e i)
  show ?thesis
  proof (cases "i < length (workers sy)")
    case False
    with Work show ?thesis by simp
  next
    case True
    obtain k' p where kp: "workers sy ! i = (k', p)" by (cases "workers sy ! i")
    have ws: "workers (sys_step cfg sy ev) = (workers sy)[i := (k', fst (worker_step cfg e k' p (api sy)))]"
      using Work True kp by (simp add: case_prod_beta)
    have wk: "worker_of sy k' = Some p"
      using sys_invD(3) [OF inv] True kp by (rule worker_of_lookup)
    have d': "distinct (map fst (workers (sys_step cfg sy ev)))"
      using sys_invD(3) [OF sys_inv_step [OF inv, of cfg ev]] .
    show ?thesis
    proof (cases "k' = k")
      case True
      with wk w have "p = Exited" by simp
      then have "fst (worker_step cfg e k' p (api sy)) = p" by simp
      then have "workers (sys_step cfg sy ev) = (workers sy)[i := workers sy ! i]"
        unfolding ws by (simp add: kp)
      then have "workers (sys_step cfg sy ev) = workers sy" by simp
      then show ?thesis by (simp add: worker_of_def)
    next
      case False
      have "map_of ((workers sy)[i := (k', fst (worker_step cfg e k' p (api sy)))]) k = map_of (workers sy) k"
        using True kp False by (intro map_of_list_update) simp_all
      then show ?thesis unfolding ws worker_of_def .
    qed
  qed
next
  case Restart
  with nr show ?thesis by simp
qed

lemma settled_step:
  assumes inv: "sys_inv sy" and s: "settled sy k j"
  shows "settled (sys_step cfg sy ev) k j"
proof (cases "ev = Restart")
  case True
  have "map_of (training_jobs (load_state (api sy))) k = disk_job (api sy) k"
    using sys_invD(8) [OF inv] by (rule load_state_lookup)
  with s True show ?thesis
    by (simp add: settled_def job_of_def worker_of_def disk_job_def)
next
  case False
  let ?sy' = "sys_step cfg sy ev"
  from s have j: "job_of sy k = Some j" and t: "terminal (status j)"
    and w: "worker_of sy k = None \<or> worker_of sy k = Some Exited"
    and d: "disk_job (api sy) k = Some j"
    by (simp_all add: settled_def)
  have j': "job_of ?sy' k = Some j"
    using inv j False t w by (intro sys_step_frozen) simp_all
  have w': "worker_of ?sy' k = worker_of sy k"
    using inv j False w by (rule worker_of_step)
  have inv': "sys_inv ?sy'" using inv by (rule sys_inv_step)
  have d': "disk_job (api ?sy') k = Some j"
    using sys_step_file [OF False, of cfg sy] sys_invD(1,2) [OF inv'] d j' [unfolded job_of_def]
    by (rule disk_job_step)
  show ?thesis unfolding settled_def using j' t w w' d' by simp
qed

lemma settled_foldl:
  "sys_inv sy \<Longrightarrow> settled sy k j \<Longrightarrow> settled (foldl (sys_step cfg) sy evs) k j"
  by (induction evs arbitrary: sy) (simp_all add: sys_inv_step settled_step)

lemma settled_run:
  "settled (run cfg evs) k j \<Longrightarrow> settled (run cfg (evs @ evs')) k j"
  unfolding run_append using sys_inv_run by (rule settled_foldl)

section \<open>Evaluation at the concrete inputs\<close>

lemma str_nat_17: "str_nat 17 = ''17''" by code_simp
lemma str_nat_0: "str_nat 0 = ''0''" by code_simp
lemma str_nat_1: "str_nat (Suc 0) = ''1''" by code_simp
lemma str_nat_2: "str_nat (Suc (Suc 0)) = ''2''" by code_simp

lemma job_fn_fields [simp]:
  "status (begin_job j) = Training" "epochs (begin_job j) = epochs j"
  "model_name (begin_job j) = model_name j" "id_job (begin_job j) = id_job j"
  "end_time (begin_job j) = end_time j" "error_message (begin_job j) = error_message j"
  "progress (begin_job j) = progress j"
  "status (progress_job e a b j) = status j" "epochs (progress_job e a b j) = epochs j"
  "model_name (progress_job e a b j) = model_name j" "id_job (progress_job e a b j) = id_job j"
  "end_time (progress_job e a b j) = end_time j"
  "error_message (progress_job e a b j) = error_message j"
  "status (mark_job j) = Completed" "epochs (mark_job j) = epochs j"
  "model_name (mark_job j) = model_name j" "id_job (mark_job j) = id_job j"
  "end_time (mark_job j) = end_time j" "error_message (mark_job j) = error_message j"
  "progress (mark_job j) = progress j"
  "status (stamp_job e j) = status j" "epochs (stamp_job e j) = epochs j"
  "model_name (stamp_job e j) = model_name j" "id_job (stamp_job e j) = id_job j"
  "end_time (stamp_job e j) = Some (now_iso e)" "error_message (stamp_job e j) = error_message j"
  "progress (stamp_job e j) = 100"
  "status (fail_job msg j) = Failed" "epochs (fail_job msg j) = epochs j"
  "model_name (fail_job msg j) = model_name j" "id_job (fail_job msg j) = id_job j"
  "end_time (fail_job msg j) = end_time j" "error_message (fail_job msg j) = Some msg"
  "progress (fail_job msg j) = progress j"
  by (simp_all add: begin_job_def progress_job_def Let_def mark_job_def stamp_job_def fail_job_def)

lemmas ex_defs = ex_cfg_def ex_env_def ex_env_fail_def ex_file_def ex_req_def init_system_def
  init_state_def
lemmas op_defs = submit_def start_training_def start_training_admit_def validate_dataset_def
  new_job_id_def req_job_def save_state_def cancel_training_def worker_step_def worker_finally_def
  worker_register_def worker_write_def upd_job_def strip_def isspace_def load_state_def
  str_nat_17 str_nat_0 str_nat_1 str_nat_2 run_def Let_def loop_next_def job_of_def
  worker_of_def disk_job_def

lemma ex_names: "strip ''m3'' \<noteq> []" "strip ''m1'' \<noteq> []" "strip ''  '' = []"
  by (simp_all add: strip_def isspace_def)

lemma ex_validate:
  "validate_dataset ex_cfg ex_env ''data.csv'' = Inr ex_file"
  "validate_dataset ex_cfg ex_env ''nofile.csv'' = Inl FileDoesNotExist"
  by (simp_all add: validate_dataset_def ex_cfg_def ex_env_def ex_file_def)

lemma ex_req_fields [simp]:
  "r_model_name (ex_req n eps) = n" "r_dataset_path (ex_req n eps) = ''data.csv''"
  "r_epochs (ex_req n eps) = eps"
  by (simp_all add: ex_req_def)

lemma ex_cfg_max [simp]: "max_concurrent_jobs ex_cfg = 2"
  by (simp add: ex_cfg_def)

lemma ex_lookup: "map_of (training_jobs (ex_state st)) ''job_17_0'' = Some (ex_job st)"
  by (simp add: ex_state_def)

lemma ex_status: "status (ex_job st) = st"
  by (simp add: ex_job_def)

lemma ex_two_eval:
  "map (\<lambda>kj. (fst kj, status (snd kj))) (training_jobs (api (run ex_cfg ex_two)))
     = [(''job_17_0'', Pending), (''job_17_1'', Pending)]"
  "trained_models (api (run ex_cfg ex_two)) = []"
  "workers (run ex_cfg ex_two) = [(''job_17_0'', AtStart), (''job_17_1'', AtStart)]"
  "active_jobs (api (run ex_cfg ex_two)) = 2"
  by (simp_all add: ex_two_def ex_defs op_defs)

lemma ex_one_eval:
  "map (\<lambda>kj. (fst kj, model_name (snd kj), status (snd kj))) (training_jobs (api (run ex_cfg ex_one)))
     = [(''job_17_0'', ''m1'', Pending)]"
  "trained_models (api (run ex_cfg ex_one)) = []"
  "active_jobs (api (run ex_cfg ex_one)) = 1"
  "new_job_id ex_env (api (run ex_cfg ex_one)) = ''job_17_1''"
  by (simp_all add: ex_one_def ex_defs op_defs)

lemma ex_one_done_eval:
  "map (\<lambda>kj. (fst kj, model_name (snd kj), status (snd kj))) (training_jobs (api (run ex_cfg ex_one_done)))
     = [(''job_17_0'', ''m1'', Completed)]"
  "map fst (trained_models (api (run ex_cfg ex_one_done))) = [''m1'']"
  "workers (run ex_cfg ex_one_done) = [(''job_17_0'', Exited)]"
  by (simp_all add: ex_one_done_def ex_one_def ex_defs op_defs)

lemma ex_one_done_names: "''m1'' \<in> fst ` set (trained_models (api (run ex_cfg ex_one_done)))"
  using ex_one_done_eval(2) by (simp flip: set_map)

section \<open>Rejected submissions (C9)\<close>

text \<open>
  C9. Whenever \<^verbatim>\<open>start_training\<close> answers with an error, the state after the call,
  the files included, is the state before it. The four rejections in the order of the
  code: a blank model name, a model name already in the registry, the counter at the
  ceiling, a dataset that fails validation; a dataset path at which no file exists fails
  validation with ``file does not exist''.
\<close>

theorem C9_rejected_submission:
  "(fst (start_training cfg e s mname bmodel dpath lr bsize eps mlen descr) = Inl err \<longrightarrow>
      snd (start_training cfg e s mname bmodel dpath lr bsize eps mlen descr) = s)
   \<and> (strip mname = [] \<longrightarrow>
      start_training cfg e s mname bmodel dpath lr bsize eps mlen descr = (Inl ModelNameRequired, s))
   \<and> (strip mname \<noteq> [] \<and> mname \<in> fst ` set (trained_models s) \<longrightarrow>
      start_training cfg e s mname bmodel dpath lr bsize eps mlen descr = (Inl (ModelExists mname), s))
   \<and> (strip mname \<noteq> [] \<and> mname \<notin> fst ` set (trained_models s)
        \<and> max_concurrent_jobs cfg \<le> active_jobs s \<longrightarrow>
      start_training cfg e s mname bmodel dpath lr bsize eps mlen descr =
        (Inl (MaxJobsReached (max_concurrent_jobs cfg)), s))
   \<and> (strip mname \<noteq> [] \<and> mname \<notin> fst ` set (trained_models s)
        \<and> active_jobs s < max_concurrent_jobs cfg \<and> validate_dataset cfg e dpath = Inl v \<longrightarrow>
      start_training cfg e s mname bmodel dpath lr bsize eps mlen descr =
        (Inl (DatasetValidationFailed v), s))
   \<and> (lookup_file e dpath = None \<longrightarrow> validate_dataset cfg e dpath = Inl FileDoesNotExist)"
  by (auto simp: start_training_def start_training_admit_def validate_dataset_def Let_def
           split: if_splits sum.splits prod.splits)

text \<open>
  The four rejections of C9 at concrete inputs: a blank name, the name of a registered
  model, a full house, and a dataset path without a file.
\<close>

theorem C9_rejected_submission_witness:
  "start_training ex_cfg ex_env init_state ''  '' ''b'' ''data.csv'' 0 4 1 2048 [] =
     (Inl ModelNameRequired, init_state)
   \<and> start_training ex_cfg ex_env (api (run ex_cfg ex_one_done)) ''m1'' ''b'' ''data.csv'' 0 4 1 2048 [] =
     (Inl (ModelExists ''m1''), api (run ex_cfg ex_one_done))
   \<and> start_training ex_cfg ex_env (api (run ex_cfg ex_two)) ''m3'' ''b'' ''data.csv'' 0 4 1 2048 [] =
     (Inl (MaxJobsReached 2), api (run ex_cfg ex_two))
   \<and> start_training ex_cfg ex_env init_state ''m1'' ''b'' ''nofile.csv'' 0 4 1 2048 [] =
     (Inl (DatasetValidationFailed FileDoesNotExist), init_state)"
proof -
  have 1: "start_training ex_cfg ex_env init_state ''  '' ''b'' ''data.csv'' 0 4 1 2048 [] =
     (Inl ModelNameRequired, init_state)"
    using C9_rejected_submission [of ex_cfg ex_env init_state "''  ''" "''b''" "''data.csv''" 0 4 1 2048 "[]"]
    by (simp add: ex_names)
  have 2: "start_training ex_cfg ex_env (api (run ex_cfg ex_one_done)) ''m1'' ''b'' ''data.csv'' 0 4 1 2048 [] =
     (Inl (ModelExists ''m1''), api (run ex_cfg ex_one_done))"
    using C9_rejected_submission [of ex_cfg ex_env "api (run ex_cfg ex_one_done)" "''m1''" "''b''" "''data.csv''" 0 4 1 2048 "[]"]
    by (simp add: ex_names ex_one_done_names)
  have 3: "start_training ex_cfg ex_env (api (run ex_cfg ex_two)) ''m3'' ''b'' ''data.csv'' 0 4 1 2048 [] =
     (Inl (MaxJobsReached 2), api (run ex_cfg ex_two))"
    using C9_rejected_submission [of ex_cfg ex_env "api (run ex_cfg ex_two)" "''m3''" "''b''" "''data.csv''" 0 4 1 2048 "[]"]
    by (simp add: ex_names ex_two_eval)
  have "lookup_file ex_env ''nofile.csv'' = None" by (simp add: ex_env_def)
  then have "validate_dataset ex_cfg ex_env ''nofile.csv'' = Inl FileDoesNotExist"
    using C9_rejected_submission [of ex_cfg ex_env init_state "''m1''" "''b''" "''nofile.csv''" 0 4 1 2048 "[]"]
    by blast
  then have 4: "start_training ex_cfg ex_env init_state ''m1'' ''b'' ''nofile.csv'' 0 4 1 2048 [] =
     (Inl (DatasetValidationFailed FileDoesNotExist), init_state)"
    using C9_rejected_submission [of ex_cfg ex_env init_state "''m1''" "''b''" "''nofile.csv''" 0 4 1 2048 "[]" _ FileDoesNotExist]
    by (simp add: ex_names init_state_def)
  from 1 2 3 4 show ?thesis by blast
qed

section \<open>Cancellation (C3)\<close>






section \<open>Evaluation of the runs of the scenario\<close>

lemma ex_env_fields [simp]:
  "unix_time ex_env = 17" "now_iso ex_env = ''2024-01-01T00:00:17''"
  "now_fmt ex_env = ''2024-01-01 00:00:17''"
  "lookup_file ex_env ''data.csv'' = Some ex_file"
  "jobs_write_ok ex_env" "models_write_ok ex_env" "model_write_error ex_env = None"
  "remove_error ex_env = None"
  "unix_time ex_env_fail = 17" "now_iso ex_env_fail = ''2024-01-01T00:00:17''"
  "jobs_write_ok ex_env_fail" "models_write_ok ex_env_fail"
  "model_write_error ex_env_fail = Some ''No space left on device''"
  by (simp_all add: ex_env_def ex_env_fail_def)

lemma ex_file_fields [simp]:
  "stat_error ex_file = None" "file_size ex_file = 2048" "file_ext ex_file = ''.csv''"
  by (simp_all add: ex_file_def)

lemmas run_defs = ex_cfg_def ex_req_def init_system_def init_state_def
  submit_def start_training_def start_training_admit_def validate_dataset_def
  new_job_id_def req_job_def save_state_def cancel_training_def worker_step_def worker_finally_def
  worker_register_def worker_write_def upd_job_def strip_def isspace_def load_state_def
  str_nat_17 str_nat_0 str_nat_1 str_nat_2 run_def Let_def loop_next_def job_of_def
  worker_of_def disk_job_def

lemmas ex_runs = ex_started_def ex_iteration_def ex_epoch_def ex_trained_def ex_marked_def
  ex_registered_def ex_success_def ex_failure_def ex_late_cancel_def ex_cancelled_def
  ex_pair_def ex_pair_cancel_def ex_pair_released_def ex_pair_restart_def





section \<open>Duplicate model names (C8)\<close>









section \<open>The live-job counter (C5)\<close>

lemma filter_count_le:
  "(\<And>x. x \<in> set xs \<Longrightarrow> P x \<Longrightarrow> Q x) \<Longrightarrow> length (filter P xs) \<le> length (filter Q xs)"
  by (induction xs) auto

lemma nonterminal_le_live:
  assumes inv: "sys_inv sy"
  shows "admitted_nonterminal sy \<le> live_workers sy"
  unfolding admitted_nonterminal_def live_workers_def
proof (rule filter_count_le)
  fix w assume w: "w \<in> set (workers sy)"
    and n: "case job_of sy (fst w) of None \<Rightarrow> False | Some j \<Rightarrow> \<not> terminal (status j)"
  from sys_invD(4) [OF inv] w have "worker_ok (api sy) w" by (simp add: list_all_iff)
  with n show "snd w \<noteq> Exited"
    by (auto simp: worker_ok_def job_of_def split: option.splits)
qed

lemma submit_full:
  "strip (r_model_name r) \<noteq> [] \<Longrightarrow> r_model_name r \<notin> fst ` set (trained_models s) \<Longrightarrow>
   max_concurrent_jobs cfg \<le> active_jobs s \<Longrightarrow>
   submit cfg e s r = (Inl (MaxJobsReached (max_concurrent_jobs cfg)), s)"
  by (simp add: submit_def start_training_def start_training_admit_def)

lemma submit_ok:
  "strip (r_model_name r) \<noteq> [] \<Longrightarrow> r_model_name r \<notin> fst ` set (trained_models s) \<Longrightarrow>
   active_jobs s < max_concurrent_jobs cfg \<Longrightarrow> validate_dataset cfg e (r_dataset_path r) = Inr meta \<Longrightarrow>
   fst (submit cfg e s r) = Inr (new_job_id e s)"
  by (simp add: submit_def start_training_def start_training_admit_def Let_def)

lemma submit_active:
  "fst (submit cfg e s r) = Inr k \<Longrightarrow> active_jobs (snd (submit cfg e s r)) = active_jobs s + 1"
  using submit_accept [of cfg e s r k] by auto

lemma live_after_submit:
  "fst (submit cfg e (api sy) r) = Inr k \<Longrightarrow>
   live_workers (sys_step cfg sy (Submit e r)) = live_workers sy + 1
   \<and> active_jobs (api (sys_step cfg sy (Submit e r))) = active_jobs (api sy) + 1"
  using submit_active [of cfg e "api sy" r k]
  by (cases "submit cfg e (api sy) r") (simp add: live_workers_def)

lemma submit_rejected_step:
  "fst (submit cfg e (api sy) r) = Inl err \<Longrightarrow> sys_step cfg sy (Submit e r) = sy"
  using submit_reject [of cfg e "api sy" r err]
  by (cases "submit cfg e (api sy) r") simp

lemma cancel_active: "active_jobs (snd (cancel_training e s k)) = active_jobs s"
  by (auto simp: cancel_training_def split: option.splits)

lemma work_step:
  assumes inv: "sys_inv sy" and i: "i < length (workers sy)" and kp: "workers sy ! i = (k, p)"
  shows "\<exists>j. map_of (training_jobs (api sy)) k = Some j \<and> pc_ok p (status j)
           \<and> sys_step cfg sy (Work e i) =
               \<lparr>api = snd (worker_step cfg e k p (api sy)),
                workers = (workers sy)[i := (k, fst (worker_step cfg e k p (api sy)))]\<rparr>"
proof -
  have "worker_ok (api sy) (workers sy ! i)"
    using sys_invD(4) [OF inv] i by (simp add: list_all_length)
  then obtain j where "map_of (training_jobs (api sy)) k = Some j" "pc_ok p (status j)"
    by (auto simp: worker_ok_def kp split: option.splits)
  then show ?thesis using i kp by (simp add: case_prod_beta)
qed

lemma work_exits:
  "map_of (training_jobs s) k = Some j \<Longrightarrow>
   fst (worker_step cfg e k p s) = Exited \<longleftrightarrow>
     p = Exited \<or> p = AtWrite \<or> (\<exists>epoch step. p = AtCheck epoch step \<and> status j = Cancelled)"
  by (cases p) (auto simp: worker_step_def)

lemma live_update:
  assumes "i < length (workers sy)" and "workers sy ! i = (k, p)"
  shows "int (live_workers \<lparr>api = s, workers = (workers sy)[i := (k, p')]\<rparr>) =
         int (live_workers sy) - (if p \<noteq> Exited then 1 else 0) + (if p' \<noteq> Exited then 1 else 0)"
  using filter_update_count [OF assms(1), of "\<lambda>w. snd w \<noteq> Exited" "(k, p')"] assms(2)
  by (simp add: live_workers_def)

lemma live_pos:
  assumes "i < length (workers sy)" and "workers sy ! i = (k, p)" and "p \<noteq> Exited"
  shows "0 < live_workers sy"
proof -
  have "(k, p) \<in> set (workers sy)" using assms(1,2) by (metis nth_mem)
  with assms(3) have "(k, p) \<in> set (filter (\<lambda>w. snd w \<noteq> Exited) (workers sy))" by simp
  then show ?thesis unfolding live_workers_def by (rule length_pos_if_in_set)
qed

lemma work_exited:
  assumes "i < length (workers sy)" and "workers sy ! i = (k, Exited)"
  shows "sys_step cfg sy (Work e i) = sy"
proof -
  have "(workers sy)[i := (k, Exited)] = workers sy"
    using assms(2) by (metis list_update_id)
  then show ?thesis using assms by simp
qed

text \<open>
  C5, as the code has it, in every state \<open>S\<close> the process can reach. The live-job counter
  equals the number of worker threads that have not exited, and the jobs that this
  process admitted and that are in a non-terminal status are at most that many. A
  submission with a usable name is answered ``maximum concurrent jobs reached'', and
  changes nothing, whenever the number of those jobs is at least the ceiling. It is
  accepted, and adds exactly one live worker and one to the counter, when the dataset is
  valid and fewer workers than the ceiling are live; a rejected submission changes nothing.
  Cancelling changes neither the counter nor the number of live workers: the slot of a
  cancelled job is released when its worker exits, not when its status becomes
  cancelled. A worker exits, and lowers the counter by exactly one, in the step at its
  cancellation test when the job is cancelled and in the step that writes the model
  file, whether the write succeeds (the job stays completed) or raises (the job becomes
  failed); every other step of a live worker leaves it live and the counter as it is; an
  exited worker does nothing more. After a restart the counter is zero and there are no
  workers, whatever the statuses of the jobs loaded from the catalog.
\<close>

theorem C5_live_job_counter:
  "active_jobs (api (run cfg evs)) = int (live_workers (run cfg evs))
   \<and> admitted_nonterminal (run cfg evs) \<le> live_workers (run cfg evs)
   \<and> (strip (r_model_name r) \<noteq> [] \<and> r_model_name r \<notin> fst ` set (trained_models (api (run cfg evs)))
        \<and> max_concurrent_jobs cfg \<le> int (admitted_nonterminal (run cfg evs)) \<longrightarrow>
      submit cfg e (api (run cfg evs)) r =
        (Inl (MaxJobsReached (max_concurrent_jobs cfg)), api (run cfg evs)))
   \<and> (strip (r_model_name r) \<noteq> [] \<and> r_model_name r \<notin> fst ` set (trained_models (api (run cfg evs)))
        \<and> int (live_workers (run cfg evs)) < max_concurrent_jobs cfg
        \<and> validate_dataset cfg e (r_dataset_path r) = Inr meta \<longrightarrow>
      fst (submit cfg e (api (run cfg evs)) r) = Inr (new_job_id e (api (run cfg evs)))
      \<and> live_workers (sys_step cfg (run cfg evs) (Submit e r)) = live_workers (run cfg evs) + 1
      \<and> active_jobs (api (sys_step cfg (run cfg evs) (Submit e r))) =
          active_jobs (api (run cfg evs)) + 1)
   \<and> (fst (submit cfg e (api (run cfg evs)) r) = Inl err \<longrightarrow>
      sys_step cfg (run cfg evs) (Submit e r) = run cfg evs)
   \<and> live_workers (sys_step cfg (run cfg evs) (Cancel e k')) = live_workers (run cfg evs)
   \<and> active_jobs (api (sys_step cfg (run cfg evs) (Cancel e k'))) = active_jobs (api (run cfg evs))
   \<and> (i < length (workers (run cfg evs)) \<and> workers (run cfg evs) ! i = (k, AtCheck epoch step)
        \<and> job_of (run cfg evs) k = Some j \<and> status j = Cancelled \<longrightarrow>
      workers (sys_step cfg (run cfg evs) (Work e i)) = (workers (run cfg evs))[i := (k, Exited)]
      \<and> active_jobs (api (sys_step cfg (run cfg evs) (Work e i))) = active_jobs (api (run cfg evs)) - 1
      \<and> live_workers (sys_step cfg (run cfg evs) (Work e i)) + 1 = live_workers (run cfg evs)
      \<and> job_of (sys_step cfg (run cfg evs) (Work e i)) k = Some j)
   \<and> (i < length (workers (run cfg evs)) \<and> workers (run cfg evs) ! i = (k, AtWrite) \<longrightarrow>
      workers (sys_step cfg (run cfg evs) (Work e i)) = (workers (run cfg evs))[i := (k, Exited)]
      \<and> active_jobs (api (sys_step cfg (run cfg evs) (Work e i))) = active_jobs (api (run cfg evs)) - 1
      \<and> live_workers (sys_step cfg (run cfg evs) (Work e i)) + 1 = live_workers (run cfg evs)
      \<and> map_option status (job_of (sys_step cfg (run cfg evs) (Work e i)) k) =
          Some (case model_write_error e of None \<Rightarrow> Completed | Some msg \<Rightarrow> Failed))
   \<and> (i < length (workers (run cfg evs)) \<and> workers (run cfg evs) ! i = (k, Exited) \<longrightarrow>
      sys_step cfg (run cfg evs) (Work e i) = run cfg evs)
   \<and> (i < length (workers (run cfg evs)) \<and> workers (run cfg evs) ! i = (k, p)
        \<and> p \<noteq> Exited \<and> p \<noteq> AtWrite
        \<and> (\<forall>a b. p = AtCheck a b \<longrightarrow> map_option status (job_of (run cfg evs) k) \<noteq> Some Cancelled) \<longrightarrow>
      snd (workers (sys_step cfg (run cfg evs) (Work e i)) ! i) \<noteq> Exited
      \<and> active_jobs (api (sys_step cfg (run cfg evs) (Work e i))) = active_jobs (api (run cfg evs))
      \<and> live_workers (sys_step cfg (run cfg evs) (Work e i)) = live_workers (run cfg evs))
   \<and> active_jobs (api (sys_step cfg (run cfg evs) Restart)) = 0
   \<and> workers (sys_step cfg (run cfg evs) Restart) = []"
proof -
  let ?S = "run cfg evs"
  have inv: "sys_inv ?S" by (rule sys_inv_run)
  have c1: "active_jobs (api ?S) = int (live_workers ?S)" by (rule sys_invD(5) [OF inv])
  have c2: "admitted_nonterminal ?S \<le> live_workers ?S" by (rule nonterminal_le_live [OF inv])
  have c3: "strip (r_model_name r) \<noteq> [] \<and> r_model_name r \<notin> fst ` set (trained_models (api ?S))
        \<and> max_concurrent_jobs cfg \<le> int (admitted_nonterminal ?S) \<longrightarrow>
      submit cfg e (api ?S) r = (Inl (MaxJobsReached (max_concurrent_jobs cfg)), api ?S)"
    using c1 c2 by (auto intro!: submit_full)
  have c4: "strip (r_model_name r) \<noteq> [] \<and> r_model_name r \<notin> fst ` set (trained_models (api ?S))
        \<and> int (live_workers ?S) < max_concurrent_jobs cfg
        \<and> validate_dataset cfg e (r_dataset_path r) = Inr meta \<longrightarrow>
      fst (submit cfg e (api ?S) r) = Inr (new_job_id e (api ?S))
      \<and> live_workers (sys_step cfg ?S (Submit e r)) = live_workers ?S + 1
      \<and> active_jobs (api (sys_step cfg ?S (Submit e r))) = active_jobs (api ?S) + 1"
    using c1 submit_ok [of r "api ?S" cfg e meta]
      live_after_submit [of cfg e ?S r "new_job_id e (api ?S)"]
    by (simp del: sys_step.simps)
  have c5: "fst (submit cfg e (api ?S) r) = Inl err \<longrightarrow> sys_step cfg ?S (Submit e r) = ?S"
    using submit_rejected_step [of cfg e ?S r err] by blast
  have c6: "live_workers (sys_step cfg ?S (Cancel e k')) = live_workers ?S"
    "active_jobs (api (sys_step cfg ?S (Cancel e k'))) = active_jobs (api ?S)"
    by (simp_all add: cancel_active)
  have c7: "i < length (workers ?S) \<and> workers ?S ! i = (k, AtCheck epoch step)
        \<and> job_of ?S k = Some j \<and> status j = Cancelled \<longrightarrow>
      workers (sys_step cfg ?S (Work e i)) = (workers ?S)[i := (k, Exited)]
      \<and> active_jobs (api (sys_step cfg ?S (Work e i))) = active_jobs (api ?S) - 1
      \<and> live_workers (sys_step cfg ?S (Work e i)) + 1 = live_workers ?S
      \<and> job_of (sys_step cfg ?S (Work e i)) k = Some j"
  proof (intro impI)
    assume h: "i < length (workers ?S) \<and> workers ?S ! i = (k, AtCheck epoch step)
        \<and> job_of ?S k = Some j \<and> status j = Cancelled"
    then have ws: "worker_step cfg e k (AtCheck epoch step) (api ?S) = (Exited, worker_finally e (api ?S))"
      by (simp add: worker_step_def job_of_def)
    have st: "sys_step cfg ?S (Work e i) =
               \<lparr>api = worker_finally e (api ?S), workers = (workers ?S)[i := (k, Exited)]\<rparr>"
      using h ws by simp
    have "int (live_workers (sys_step cfg ?S (Work e i))) = int (live_workers ?S) - 1"
      unfolding st using live_update [of i ?S k "AtCheck epoch step" _ Exited] h by simp
    moreover have "0 < live_workers ?S"
      using h by (auto intro: live_pos)
    ultimately have "live_workers (sys_step cfg ?S (Work e i)) + 1 = live_workers ?S" by linarith
    with h show "workers (sys_step cfg ?S (Work e i)) = (workers ?S)[i := (k, Exited)]
      \<and> active_jobs (api (sys_step cfg ?S (Work e i))) = active_jobs (api ?S) - 1
      \<and> live_workers (sys_step cfg ?S (Work e i)) + 1 = live_workers ?S
      \<and> job_of (sys_step cfg ?S (Work e i)) k = Some j"
      unfolding st by (simp add: job_of_def)
  qed
  have c8: "i < length (workers ?S) \<and> workers ?S ! i = (k, AtWrite) \<longrightarrow>
      workers (sys_step cfg ?S (Work e i)) = (workers ?S)[i := (k, Exited)]
      \<and> active_jobs (api (sys_step cfg ?S (Work e i))) = active_jobs (api ?S) - 1
      \<and> live_workers (sys_step cfg ?S (Work e i)) + 1 = live_workers ?S
      \<and> map_option status (job_of (sys_step cfg ?S (Work e i)) k) =
          Some (case model_write_error e of None \<Rightarrow> Completed | Some msg \<Rightarrow> Failed)"
  proof (intro impI)
    assume h: "i < length (workers ?S) \<and> workers ?S ! i = (k, AtWrite)"
    from work_step [OF inv, of i k AtWrite cfg e] h obtain j' where
      j': "map_of (training_jobs (api ?S)) k = Some j'" "status j' = Completed" and
      st: "sys_step cfg ?S (Work e i) =
               \<lparr>api = snd (worker_step cfg e k AtWrite (api ?S)),
                workers = (workers ?S)[i := (k, fst (worker_step cfg e k AtWrite (api ?S)))]\<rparr>"
      by auto
    have ws: "worker_step cfg e k AtWrite (api ?S) =
                (Exited, worker_finally e (worker_write cfg e k j' (api ?S)))"
      using j' by (simp add: worker_step_def)
    have "int (live_workers (sys_step cfg ?S (Work e i))) = int (live_workers ?S) - 1"
      unfolding st ws using live_update [of i ?S k AtWrite _ Exited] h by simp
    moreover have "0 < live_workers ?S"
      using h by (auto intro: live_pos)
    ultimately have "live_workers (sys_step cfg ?S (Work e i)) + 1 = live_workers ?S" by linarith
    moreover have "map_option status (job_of (sys_step cfg ?S (Work e i)) k) =
          Some (case model_write_error e of None \<Rightarrow> Completed | Some msg \<Rightarrow> Failed)"
      unfolding st ws using j'
      by (simp add: map_of_map_entry_eq worker_job_status split: option.splits)
    ultimately show "workers (sys_step cfg ?S (Work e i)) = (workers ?S)[i := (k, Exited)]
      \<and> active_jobs (api (sys_step cfg ?S (Work e i))) = active_jobs (api ?S) - 1
      \<and> live_workers (sys_step cfg ?S (Work e i)) + 1 = live_workers ?S
      \<and> map_option status (job_of (sys_step cfg ?S (Work e i)) k) =
          Some (case model_write_error e of None \<Rightarrow> Completed | Some msg \<Rightarrow> Failed)"
      unfolding st ws by simp
  qed
  have c9: "i < length (workers ?S) \<and> workers ?S ! i = (k, Exited) \<longrightarrow>
      sys_step cfg ?S (Work e i) = ?S"
    using work_exited [of i ?S k cfg e] by blast
  have c10: "i < length (workers ?S) \<and> workers ?S ! i = (k, p)
        \<and> p \<noteq> Exited \<and> p \<noteq> AtWrite
        \<and> (\<forall>a b. p = AtCheck a b \<longrightarrow> map_option status (job_of ?S k) \<noteq> Some Cancelled) \<longrightarrow>
      snd (workers (sys_step cfg ?S (Work e i)) ! i) \<noteq> Exited
      \<and> active_jobs (api (sys_step cfg ?S (Work e i))) = active_jobs (api ?S)
      \<and> live_workers (sys_step cfg ?S (Work e i)) = live_workers ?S"
  proof (intro impI)
    assume h: "i < length (workers ?S) \<and> workers ?S ! i = (k, p)
        \<and> p \<noteq> Exited \<and> p \<noteq> AtWrite
        \<and> (\<forall>a b. p = AtCheck a b \<longrightarrow> map_option status (job_of ?S k) \<noteq> Some Cancelled)"
    from work_step [OF inv, of i k p cfg e] h obtain j' where
      j': "map_of (training_jobs (api ?S)) k = Some j'" and
      st: "sys_step cfg ?S (Work e i) =
               \<lparr>api = snd (worker_step cfg e k p (api ?S)),
                workers = (workers ?S)[i := (k, fst (worker_step cfg e k p (api ?S)))]\<rparr>"
      by auto
    have ne: "fst (worker_step cfg e k p (api ?S)) \<noteq> Exited"
      using work_exits [OF j', of cfg e p] h j' by (auto simp: job_of_def)
    have "int (live_workers (sys_step cfg ?S (Work e i))) = int (live_workers ?S)"
      unfolding st using live_update [of i ?S k p _ "fst (worker_step cfg e k p (api ?S))"] h ne
      by simp
    moreover have "active_jobs (snd (worker_step cfg e k p (api ?S))) = active_jobs (api ?S)"
      using worker_step_active [OF j', of cfg e p] ne by simp
    ultimately show "snd (workers (sys_step cfg ?S (Work e i)) ! i) \<noteq> Exited
      \<and> active_jobs (api (sys_step cfg ?S (Work e i))) = active_jobs (api ?S)
      \<and> live_workers (sys_step cfg ?S (Work e i)) = live_workers ?S"
      unfolding st using h ne by simp
  qed
  have c11: "active_jobs (api (sys_step cfg ?S Restart)) = 0"
    "workers (sys_step cfg ?S Restart) = []"
    by simp_all
  from c1 c2 c3 c4 c5 c6 c7 c8 c9 c10 c11 show ?thesis by blast
qed


lemma ex_pair_eval:
  "(workers (run ex_cfg ex_pair),
    map (\<lambda>kj. (fst kj, status (snd kj))) (training_jobs (api (run ex_cfg ex_pair))),
    trained_models (api (run ex_cfg ex_pair)), admitted_nonterminal (run ex_cfg ex_pair))
   = ([(''job_17_0'', AtStart), (''job_17_1'', AtStart)],
      [(''job_17_0'', Pending), (''job_17_1'', Pending)], [], 2)"
  by (simp add: ex_runs run_defs admitted_nonterminal_def terminal_def)

lemma ex_pair_cancel_eval:
  "(workers (run ex_cfg ex_pair_cancel),
    map (\<lambda>kj. (fst kj, status (snd kj))) (training_jobs (api (run ex_cfg ex_pair_cancel))),
    trained_models (api (run ex_cfg ex_pair_cancel)),
    active_jobs (api (run ex_cfg ex_pair_cancel)),
    map_option status (job_of (run ex_cfg ex_pair_cancel) ''job_17_0''))
   = ([(''job_17_0'', AtCheck 0 0), (''job_17_1'', AtStart)],
      [(''job_17_0'', Cancelled), (''job_17_1'', Pending)], [], 2, Some Cancelled)"
  by (simp add: ex_runs run_defs)

lemma ex_pair_released_eval:
  "(trained_models (api (run ex_cfg ex_pair_released)),
    new_job_id ex_env (api (run ex_cfg ex_pair_released)))
   = ([], ''job_17_2'')"
  by (simp add: ex_runs run_defs)

lemma ex_registered_eval:
  "(workers (run ex_cfg ex_registered),
    map_option (\<lambda>j. (status j, progress j, end_time j)) (job_of (run ex_cfg ex_registered) ''job_17_0''),
    map fst (trained_models (api (run ex_cfg ex_registered))),
    active_jobs (api (run ex_cfg ex_registered)))
   = ([(''job_17_0'', AtWrite)], Some (Completed, 100, Some ''2024-01-01T00:00:17''), [''m1''], 1)"
  by (simp add: ex_runs run_defs)

lemma ex_pair_restart_eval:
  "(workers (run ex_cfg ex_pair_restart),
    map (\<lambda>kj. (fst kj, status (snd kj))) (training_jobs (api (run ex_cfg ex_pair_restart))),
    active_jobs (api (run ex_cfg ex_pair_restart)),
    fst (submit ex_cfg ex_env (api (run ex_cfg ex_pair_restart)) (ex_req ''m3'' 1)))
   = ([], [(''job_17_0'', Pending), (''job_17_1'', Pending)], 0, Inr ''job_17_2'')"
  by (simp add: ex_runs run_defs)

text \<open>
  C5 at concrete inputs, with the ceiling at two and jobs of one epoch. After two
  admissions a third submission is refused. When the first job has been cancelled and
  its worker has reached the cancellation test, the worker has exited, the counter is
  one and the third submission is accepted. The worker of the scenario, about to write
  the model file, exits and brings the counter to zero both when the write raises (the
  job is failed) and when it succeeds (the job is completed).
\<close>

theorem C5_live_job_counter_witness:
  "admitted_nonterminal (run ex_cfg ex_pair) = 2
   \<and> submit ex_cfg ex_env (api (run ex_cfg ex_pair)) (ex_req ''m3'' 1) =
       (Inl (MaxJobsReached 2), api (run ex_cfg ex_pair))
   \<and> workers (run ex_cfg ex_pair_released) = [(''job_17_0'', Exited), (''job_17_1'', AtStart)]
   \<and> active_jobs (api (run ex_cfg ex_pair_released)) = 1
   \<and> fst (submit ex_cfg ex_env (api (run ex_cfg ex_pair_released)) (ex_req ''m3'' 1)) = Inr ''job_17_2''
   \<and> workers (run ex_cfg ex_failure) = [(''job_17_0'', Exited)]
   \<and> active_jobs (api (run ex_cfg ex_failure)) = 0
   \<and> map_option status (job_of (run ex_cfg ex_failure) ''job_17_0'') = Some Failed
   \<and> workers (run ex_cfg ex_success) = [(''job_17_0'', Exited)]
   \<and> active_jobs (api (run ex_cfg ex_success)) = 0
   \<and> map_option status (job_of (run ex_cfg ex_success) ''job_17_0'') = Some Completed"
proof -
  have 1: "submit ex_cfg ex_env (api (run ex_cfg ex_pair)) (ex_req ''m3'' 1) =
       (Inl (MaxJobsReached 2), api (run ex_cfg ex_pair))"
    using C5_live_job_counter [where cfg = ex_cfg and evs = ex_pair and r = "ex_req ''m3'' 1"
        and e = ex_env] ex_pair_eval
    by (simp add: ex_names del: sys_step.simps)
  obtain j where j: "job_of (run ex_cfg ex_pair_cancel) ''job_17_0'' = Some j" "status j = Cancelled"
    using ex_pair_cancel_eval by auto
  have rel: "run ex_cfg ex_pair_released = sys_step ex_cfg (run ex_cfg ex_pair_cancel) (Work ex_env 0)"
    unfolding ex_pair_released_def by (rule run_snoc)
  have 2: "workers (run ex_cfg ex_pair_released) = [(''job_17_0'', Exited), (''job_17_1'', AtStart)]
    \<and> active_jobs (api (run ex_cfg ex_pair_released)) = 1"
    unfolding rel
    using C5_live_job_counter [where cfg = ex_cfg and evs = ex_pair_cancel and i = 0
        and k = "''job_17_0''" and epoch = 0 and step = 0 and j = j and e = ex_env]
      j ex_pair_cancel_eval
    by (simp del: sys_step.simps)
  then have "live_workers (run ex_cfg ex_pair_released) = 1" by (simp add: live_workers_def)
  then have 3: "fst (submit ex_cfg ex_env (api (run ex_cfg ex_pair_released)) (ex_req ''m3'' 1)) = Inr ''job_17_2''"
    using C5_live_job_counter [where cfg = ex_cfg and evs = ex_pair_released
        and r = "ex_req ''m3'' 1" and e = ex_env and meta = ex_file] ex_pair_released_eval
    by (simp add: ex_names ex_validate del: sys_step.simps)
  have f: "run ex_cfg ex_failure = sys_step ex_cfg (run ex_cfg ex_registered) (Work ex_env_fail 0)"
    unfolding ex_failure_def by (rule run_snoc)
  have 4: "workers (run ex_cfg ex_failure) = [(''job_17_0'', Exited)]
     \<and> active_jobs (api (run ex_cfg ex_failure)) = 0
     \<and> map_option status (job_of (run ex_cfg ex_failure) ''job_17_0'') = Some Failed"
    unfolding f
    using C5_live_job_counter [where cfg = ex_cfg and evs = ex_registered and i = 0
        and k = "''job_17_0''" and e = ex_env_fail] ex_registered_eval
    by (simp del: sys_step.simps)
  have g: "run ex_cfg ex_success = sys_step ex_cfg (run ex_cfg ex_registered) (Work ex_env 0)"
    unfolding ex_success_def by (rule run_snoc)
  have 5: "workers (run ex_cfg ex_success) = [(''job_17_0'', Exited)]
     \<and> active_jobs (api (run ex_cfg ex_success)) = 0
     \<and> map_option status (job_of (run ex_cfg ex_success) ''job_17_0'') = Some Completed"
    unfolding g
    using C5_live_job_counter [where cfg = ex_cfg and evs = ex_registered and i = 0
        and k = "''job_17_0''" and e = ex_env] ex_registered_eval
    by (simp del: sys_step.simps)
  from 1 2 3 4 5 ex_pair_eval show ?thesis by simp
qed

text \<open>
  C5 as stated fails in two ways. With the ceiling at two and two jobs admitted, the
  first job is cancelled while its worker is at the cancellation test: its status
  is the terminal status cancelled, and a further submission is still refused, because
  the worker has not reached its next test. And after a restart the two jobs loaded from
  the catalog are pending, so two admitted jobs are in a non-terminal status, and a third
  submission is accepted, because the counter has started again at zero.
\<close>

theorem C5_counterexample:
  "map_option status (job_of (run ex_cfg ex_pair_cancel) ''job_17_0'') = Some Cancelled
   \<and> terminal Cancelled
   \<and> fst (submit ex_cfg ex_env (api (run ex_cfg ex_pair_cancel)) (ex_req ''m3'' 1)) =
       Inl (MaxJobsReached 2)
   \<and> map (\<lambda>kj. (fst kj, status (snd kj))) (training_jobs (api (run ex_cfg ex_pair_restart)))
       = [(''job_17_0'', Pending), (''job_17_1'', Pending)]
   \<and> \<not> terminal Pending
   \<and> fst (submit ex_cfg ex_env (api (run ex_cfg ex_pair_restart)) (ex_req ''m3'' 1)) =
       Inr ''job_17_2''"
proof -
  have "submit ex_cfg ex_env (api (run ex_cfg ex_pair_cancel)) (ex_req ''m3'' 1) =
       (Inl (MaxJobsReached (max_concurrent_jobs ex_cfg)), api (run ex_cfg ex_pair_cancel))"
    using ex_pair_cancel_eval by (intro submit_full) (simp_all add: ex_names)
  then show ?thesis
    using ex_pair_cancel_eval ex_pair_restart_eval by (simp add: terminal_def)
qed

section \<open>End time and terminal status (C2)\<close>

lemma ex_cancelled_eval:
  "map_option (\<lambda>j. (status j, end_time j)) (job_of (run ex_cfg ex_cancelled) ''job_17_0'')
     = Some (Cancelled, None)"
  "workers (run ex_cfg ex_cancelled) = [(''job_17_0'', Exited)]"
  "map_option (\<lambda>js. map (\<lambda>j. (id_job j, status j, end_time j)) js)
     (jobs_file (api (run ex_cfg ex_cancelled))) = Some [(''job_17_0'', Cancelled, None)]"
  "disk_job (api (run ex_cfg ex_cancelled)) ''job_17_0'' = job_of (run ex_cfg ex_cancelled) ''job_17_0''"
  by (simp_all add: ex_runs run_defs cancel_job_def new_job_def)


text \<open>
  C2 fails in \<^verbatim>\<open>ModelTrainerAPI\<close>. A job is admitted, its worker starts, the job is
  cancelled and the worker exits at its next cancellation test: the job is cancelled, a
  terminal status, and its \<^verbatim>\<open>end_time\<close> is unset, in memory and in the jobs
  catalog written by the exiting worker; whatever happens afterwards, the record stays
  like this.
\<close>

theorem C2_cancelled_job_without_end_time:
  "terminal Cancelled
   \<and> workers (run ex_cfg ex_cancelled) = [(''job_17_0'', Exited)]
   \<and> map_option (\<lambda>js. map (\<lambda>j. (id_job j, status j, end_time j)) js)
       (jobs_file (api (run ex_cfg ex_cancelled))) = Some [(''job_17_0'', Cancelled, None)]
   \<and> (\<forall>evs'. map_option (\<lambda>j. (status j, end_time j))
               (job_of (run ex_cfg (ex_cancelled @ evs')) ''job_17_0'') = Some (Cancelled, None))"
proof -
  from ex_cancelled_eval(1) obtain j where j: "job_of (run ex_cfg ex_cancelled) ''job_17_0'' = Some j"
    "status j = Cancelled" "end_time j = None" by auto
  have "settled (run ex_cfg ex_cancelled) ''job_17_0'' j"
    using j ex_cancelled_eval(2,4) by (simp add: settled_def terminal_def worker_of_def)
  then have "settled (run ex_cfg (ex_cancelled @ evs')) ''job_17_0'' j" for evs'
    by (rule settled_run)
  then have "job_of (run ex_cfg (ex_cancelled @ evs')) ''job_17_0'' = Some j" for evs'
    by (simp add: settled_def)
  with j ex_cancelled_eval(2,3) show ?thesis by (simp add: terminal_def)
qed

text \<open>
  The worker of \<^verbatim>\<open>TrainingManager\<close> does set the end time on every exit path: its
  \<^verbatim>\<open>finally\<close> block leaves no job without one.
\<close>

lemma real_finally_sets_end_time:
  "map_of (training_jobs s) k = Some j \<Longrightarrow>
   \<exists>j'. map_of (training_jobs (real_finally e k s)) k = Some j' \<and> end_time j' \<noteq> None
        \<and> status j' = status j"
  by (auto simp: real_finally_def map_of_map_entry)

section \<open>Persistence at admission (C6)\<close>

lemma update_contains: "(k, v) \<in> set (AList.update k v xs)"
  by (induction xs) auto

lemma admit_accept:
  assumes "fst (start_training_admit cfg e s mname bmodel dpath lr bsize eps mlen descr) = Inr k"
  shows "k = new_job_id e s \<and>
     (\<exists>meta. validate_dataset cfg e dpath = Inr meta \<and>
        snd (start_training_admit cfg e s mname bmodel dpath lr bsize eps mlen descr) =
          s\<lparr>training_jobs := AList.update k (new_job e k mname bmodel dpath lr bsize eps mlen meta)
                                (training_jobs s),
            active_jobs := active_jobs s + 1\<rparr>)"
  using assms
  by (auto simp: start_training_admit_def Let_def split: if_splits sum.splits)

text \<open>
  C6, as the code has it. When \<^verbatim>\<open>start_training\<close> succeeds, the admission part has
  put the job into the registry in pending state with progress zero and no end time, has
  touched no file, and has started the worker; the function then calls \<^verbatim>\<open>_save_state\<close>
  and returns. A save whose write succeeds stores the records of the registry as they are
  at that moment; so if no worker step came in between, the jobs catalog holds the pending
  record of the new job when the call returns.
\<close>

theorem C6_persist_on_admission:
  "fst (start_training cfg e s mname bmodel dpath lr bsize eps mlen descr) = Inr k \<longrightarrow>
     fst (start_training_admit cfg e s mname bmodel dpath lr bsize eps mlen descr) = Inr k
     \<and> (\<exists>job. map_of (training_jobs (snd (start_training_admit cfg e s mname bmodel dpath lr bsize eps mlen descr))) k
               = Some job
          \<and> status job = Pending \<and> progress job = 0 \<and> end_time job = None \<and> id_job job = k
          \<and> (jobs_write_ok e \<longrightarrow>
               (\<exists>js. jobs_file (snd (start_training cfg e s mname bmodel dpath lr bsize eps mlen descr)) = Some js
                     \<and> job \<in> set js)))
     \<and> jobs_file (snd (start_training_admit cfg e s mname bmodel dpath lr bsize eps mlen descr)) = jobs_file s
     \<and> models_file (snd (start_training_admit cfg e s mname bmodel dpath lr bsize eps mlen descr)) = models_file s
     \<and> snd (start_training cfg e s mname bmodel dpath lr bsize eps mlen descr) =
         save_state e (snd (start_training_admit cfg e s mname bmodel dpath lr bsize eps mlen descr))
     \<and> (\<forall>s2. jobs_write_ok e \<longrightarrow> jobs_file (save_state e s2) = Some (map snd (training_jobs s2)))"
proof
  let ?a = "start_training_admit cfg e s mname bmodel dpath lr bsize eps mlen descr"
  let ?r = "start_training cfg e s mname bmodel dpath lr bsize eps mlen descr"
  assume ok: "fst ?r = Inr k"
  then have a: "fst ?a = Inr k" and r: "snd ?r = save_state e (snd ?a)"
    by (auto simp: start_training_def split: prod.splits sum.splits)
  from admit_accept [OF a] obtain meta where
    s1: "snd ?a = s\<lparr>training_jobs := AList.update k (new_job e k mname bmodel dpath lr bsize eps mlen meta)
                                (training_jobs s),
            active_jobs := active_jobs s + 1\<rparr>"
    by blast
  let ?job = "new_job e k mname bmodel dpath lr bsize eps mlen meta"
  have sv: "jobs_file (save_state e s2) = Some (map snd (training_jobs s2))" if "jobs_write_ok e" for s2
    using that by (simp add: save_state_def Let_def)
  have 1: "map_of (training_jobs (snd ?a)) k = Some ?job" by (simp add: s1 update_conv')
  have "?job \<in> snd ` set (training_jobs (snd ?a))"
    using update_contains [of k ?job "training_jobs s"] by (simp add: s1) (metis image_eqI snd_conv)
  then have 2: "\<exists>js. jobs_file (snd ?r) = Some js \<and> ?job \<in> set js" if "jobs_write_ok e"
    using that by (simp add: r sv)
  have 3: "jobs_file (snd ?a) = jobs_file s" "models_file (snd ?a) = models_file s"
    by (simp_all add: s1)
  from a r 1 2 3 sv
  show "fst ?a = Inr k
     \<and> (\<exists>job. map_of (training_jobs (snd ?a)) k = Some job
          \<and> status job = Pending \<and> progress job = 0 \<and> end_time job = None \<and> id_job job = k
          \<and> (jobs_write_ok e \<longrightarrow> (\<exists>js. jobs_file (snd ?r) = Some js \<and> job \<in> set js)))
     \<and> jobs_file (snd ?a) = jobs_file s
     \<and> models_file (snd ?a) = models_file s
     \<and> snd ?r = save_state e (snd ?a)
     \<and> (\<forall>s2. jobs_write_ok e \<longrightarrow> jobs_file (save_state e s2) = Some (map snd (training_jobs s2)))"
    by (intro conjI exI [of _ ?job]) simp_all
qed

lemma ex_admitted_eval:
  "fst (start_training_admit ex_cfg ex_env init_state ''m1'' ''b'' ''data.csv'' (fl (1 / 1000)) 4 1 2048 [])
     = Inr ''job_17_0''"
  "jobs_file ex_admitted = None"
  "map (\<lambda>kj. (fst kj, status (snd kj))) (training_jobs ex_admitted) = [(''job_17_0'', Pending)]"
  "fst (worker_step ex_cfg ex_env ''job_17_0'' AtStart ex_admitted) = AtCheck 0 0"
  "map_option (map (\<lambda>j. (id_job j, status j)))
     (jobs_file (save_state ex_env (snd (worker_step ex_cfg ex_env ''job_17_0'' AtStart ex_admitted))))
     = Some [(''job_17_0'', Training)]"
  "map_option (map (\<lambda>j. (id_job j, status j)))
     (jobs_file (snd (start_training ex_cfg ex_env init_state ''m1'' ''b'' ''data.csv'' (fl (1 / 1000)) 4 1 2048 [])))
     = Some [(''job_17_0'', Pending)]"
  "fst (start_training ex_cfg ex_env init_state ''m1'' ''b'' ''data.csv'' (fl (1 / 1000)) 4 1 2048 [])
     = Inr ''job_17_0''"
  by (simp_all add: ex_admitted_def run_defs)

text \<open>
  C6 at a concrete input: the first job is admitted and, with no worker step before the
  save, the catalog holds its pending record on return.
\<close>

theorem C6_persist_on_admission_witness:
  "fst (start_training ex_cfg ex_env init_state ''m1'' ''b'' ''data.csv'' (fl (1 / 1000)) 4 1 2048 [])
     = Inr ''job_17_0''
   \<and> snd (start_training ex_cfg ex_env init_state ''m1'' ''b'' ''data.csv'' (fl (1 / 1000)) 4 1 2048 [])
     = save_state ex_env ex_admitted
   \<and> map_option (map (\<lambda>j. (id_job j, status j)))
       (jobs_file (snd (start_training ex_cfg ex_env init_state ''m1'' ''b'' ''data.csv'' (fl (1 / 1000)) 4 1 2048 [])))
     = Some [(''job_17_0'', Pending)]"
proof -
  have ok: "fst (start_training ex_cfg ex_env init_state ''m1'' ''b'' ''data.csv'' (fl (1 / 1000)) 4 1 2048 [])
     = Inr ''job_17_0''"
    by (rule ex_admitted_eval(7))
  with C6_persist_on_admission [of ex_cfg ex_env init_state "''m1''" "''b''" "''data.csv''" "fl (1 / 1000)"
      4 1 2048 "[]" "''job_17_0''"]
  have "snd (start_training ex_cfg ex_env init_state ''m1'' ''b'' ''data.csv'' (fl (1 / 1000)) 4 1 2048 [])
     = save_state ex_env ex_admitted"
    unfolding ex_admitted_def by blast
  with ok ex_admitted_eval(6) show ?thesis by blast
qed

text \<open>
  C6 as stated fails: the worker thread is started before the save. When its first
  statement runs in between, nothing was persisted before the status changed, and the
  first record that reaches the catalog shows the job as training, never as pending.
\<close>

theorem C6_counterexample:
  "fst (start_training_admit ex_cfg ex_env init_state ''m1'' ''b'' ''data.csv'' (fl (1 / 1000)) 4 1 2048 [])
     = Inr ''job_17_0''
   \<and> jobs_file ex_admitted = None
   \<and> map (\<lambda>kj. (fst kj, status (snd kj))) (training_jobs ex_admitted) = [(''job_17_0'', Pending)]
   \<and> map_option (map (\<lambda>j. (id_job j, status j)))
       (jobs_file (save_state ex_env (snd (worker_step ex_cfg ex_env ''job_17_0'' AtStart ex_admitted))))
       = Some [(''job_17_0'', Training)]"
  using ex_admitted_eval by simp

end
